theory Spec2Isabelle
  imports Complex_Main "HOL-Library.Sublist"
begin

section \<open>JavaScript data\<close>

text \<open>
  The class \<^verbatim>\<open>SmartKissanAgent\<close> that loads its workflow from a YAML document (the module
  behind \<^verbatim>\<open>smartKissanAgent\<close>, the object the chat component calls) is embedded as pure
  functions.

  \<^item> A JavaScript string is a \<^typ>\<open>string\<close>; every \<^typ>\<open>char\<close> stands for one UTF-16
    code unit, so \<^term>\<open>length\<close> is \<^verbatim>\<open>.length\<close>. Only the code units 0 to 255 exist in
    the model (the degree sign of the source is \<open>CHR 0xB0\<close>).
  \<^item> A JavaScript number is a \<^typ>\<open>rat\<close>: every finite double is a rational, and the
    arithmetic of the model is exact where the source rounds to the nearest double.
  \<^item> A value the agent stores or passes on is a \<open>jsval\<close>: the JSON data model plus
    \<^verbatim>\<open>undefined\<close>. An object lists its own properties in enumeration order, and a number
    in a value is finite.
  \<^item> A property read can leave the data: the name may be one the value inherits from its
    prototype (a method, \<^verbatim>\<open>constructor\<close>, \<^verbatim>\<open>__proto__\<close>), and what is found there is a
    function or an object of the engine. Such a value is \<open>Engine n\<close>, known by a number
    only; what a read reaches is a \<open>reached\<close>.
\<close>

datatype jsval =
    JUndefined
  | JNull
  | JBool bool
  | JNum rat
  | JStr string
  | JArr "jsval list"
  | JObj "(string \<times> jsval) list"

datatype reached = Data jsval | Engine nat

text \<open>
  The prototypes of the values of the data model: of an object, an array, a string, a
  number and a boolean.
\<close>

datatype standard_prototype =
    ObjectPrototype | ArrayPrototype | StringPrototype | NumberPrototype | BooleanPrototype

text \<open>\<^verbatim>\<open>interface SoilData\<close>.\<close>

record SoilData =
  date :: string
  time :: string
  t0 :: rat
  t10 :: rat
  moisture :: rat

definition soilToJs :: "SoilData \<Rightarrow> jsval" where
  "soilToJs s = JObj [(''date'', JStr (date s)), (''time'', JStr (time s)),
     (''t0'', JNum (t0 s)), (''t10'', JNum (t10 s)), (''moisture'', JNum (moisture s))]"

text \<open>
  \<^verbatim>\<open>interface WorkflowStep\<close>, the fields the agent reads. The field names carry the
  prefix \<open>step_\<close>; a field the interface marks optional and the agent tests for presence
  is an option or a \<open>jsval\<close>.
\<close>

record WorkflowStep =
  step_id :: string
  step_type :: string
  step_when :: "string option"
  step_url :: "string option"
  step_params :: jsval
  step_input :: jsval
  step_output :: string

text \<open>
  \<^verbatim>\<open>interface AgentConfig\<close>: an object that \<^verbatim>\<open>yaml.load\<close> returned. Its \<^verbatim>\<open>workflow\<close> entry is
  \<open>None\<close> when it is absent or not iterable, and an entry of the list is \<open>None\<close> when it is
  \<^verbatim>\<open>null\<close>.
\<close>

record AgentConfig =
  workflow :: "WorkflowStep option list option"

text \<open>
  The field \<^verbatim>\<open>config\<close> of the agent: what \<^verbatim>\<open>yaml.load\<close> returned and the constructor stored
  (a document that does not parse makes the constructor throw, and then there is no
  agent to call). The YAML document is not part of the sources, so the stored value is a
  parameter. For an empty document \<^verbatim>\<open>yaml.load\<close> returns \<^verbatim>\<open>undefined\<close>, for the document
  \<^verbatim>\<open>null\<close> it returns \<^verbatim>\<open>null\<close>; the cast to \<^verbatim>\<open>AgentConfig\<close> checks nothing. A document that
  is a scalar or a list has no \<^verbatim>\<open>workflow\<close> and behaves as an object without one.
\<close>

datatype stored_config = ConfigUndefined | ConfigNull | ConfigObject AgentConfig

text \<open>\<^verbatim>\<open>interface AgentResponse\<close>; an optional field is \<open>None\<close> until it is assigned.\<close>

record AgentResponse =
  weather :: "jsval option"
  soil :: "jsval option"
  disease :: "jsval option"
  allocation :: "jsval option"
  final_answer :: "jsval option"
  success :: bool
  error :: "string option"

text \<open>
  Every value the agent throws is an instance of \<^verbatim>\<open>Error\<close>; the exception carries its
  \<^verbatim>\<open>message\<close>. A \<open>TypeError\<close> is raised by the engine, an \<open>Error\<close> by a \<^verbatim>\<open>throw\<close> of the
  source.
\<close>

datatype exn = Error string | TypeError string

definition message :: "exn \<Rightarrow> string" where
  "message e = (case e of Error m \<Rightarrow> m | TypeError m \<Rightarrow> m)"

text \<open>The result of an arithmetic conversion: a finite number, \<^verbatim>\<open>NaN\<close> or an infinity.\<close>

datatype jsnum = Finite rat | NaN | PosInfinity | NegInfinity

text \<open>
  What the \<^verbatim>\<open>try\<close> block of \<^verbatim>\<open>getWeatherData\<close> meets: building the query string or the
  transport fails, or a response arrives with its \<^verbatim>\<open>ok\<close> flag and its body
  (\<open>None\<close> when \<^verbatim>\<open>response.json()\<close> rejects).
\<close>

datatype fetch_result = RequestFailed | Response bool "jsval option"

section \<open>The host\<close>

text \<open>
  Everything the agent reads from outside is a field of the host record. Every external
  read takes the current value of a counter (the tick) and the run goes on with the next
  one, so that no two reads of a run share a tick.
  \<^item> \<open>random h k\<close> is what \<^verbatim>\<open>Math.random()\<close> returns at tick \<open>k\<close>.
  \<^item> \<open>isoDate h d\<close> is \<^verbatim>\<open>new Date(2025, 8, d).toISOString().split('T')[0]\<close>, which
    depends on the time zone of the host.
  \<^item> \<open>today h k\<close> is \<^verbatim>\<open>new Date().toISOString().split('T')[0]\<close> at tick \<open>k\<close>.
  \<^item> \<open>fetch h k step\<close> is the outcome of the weather request for \<open>step\<close> at tick \<open>k\<close>.
  \<^item> \<open>fractionToString h x\<close> is \<^verbatim>\<open>Number.prototype.toString\<close> for a number that is not an
    integer below \<open>10^21\<close> in absolute value.
  \<^item> \<open>stringToNumber h s\<close> is the conversion of a string to a number.
  \<^item> \<open>typeErrorMessage h what\<close> is the message of the \<^verbatim>\<open>TypeError\<close> the engine raises for
    the failure described by \<open>what\<close>.
  \<^item> \<open>inherited h p name\<close> is what a read of the property \<open>name\<close> finds on the prototype
    \<open>p\<close> or further up its chain, for a value that has no own property of that name:
    \<^verbatim>\<open>undefined\<close> for most names, a method or a constructor for some, the prototype
    itself for \<^verbatim>\<open>__proto__\<close>.
  \<^item> \<open>engineGet h n name\<close> is what a read of the property \<open>name\<close> finds on the value
    \<open>Engine n\<close>; a getter of the engine may throw.
  \<^item> \<open>engineJSON h n\<close> is \<^verbatim>\<open>JSON.stringify\<close> of the value \<open>Engine n\<close>; \<open>None\<close> is the result
    \<^verbatim>\<open>undefined\<close>, which a function gives.
\<close>

record host =
  random :: "nat \<Rightarrow> rat"
  isoDate :: "nat \<Rightarrow> string"
  today :: "nat \<Rightarrow> string"
  fetch :: "nat \<Rightarrow> WorkflowStep \<Rightarrow> fetch_result"
  fractionToString :: "rat \<Rightarrow> string"
  stringToNumber :: "string \<Rightarrow> jsnum"
  typeErrorMessage :: "string \<Rightarrow> string"
  inherited :: "standard_prototype \<Rightarrow> string \<Rightarrow> exn + reached"
  engineGet :: "nat \<Rightarrow> string \<Rightarrow> exn + reached"
  engineJSON :: "nat \<Rightarrow> exn + string option"

section \<open>Strings and numbers of the standard library\<close>

text \<open>\<^verbatim>\<open>Math.round\<close>: the nearest integer, a tie going up.\<close>

definition Math_round :: "rat \<Rightarrow> rat" where
  "Math_round x = of_int \<lfloor>x + 1 / 2\<rfloor>"

text \<open>\<^verbatim>\<open>Number.prototype.toString\<close> on a natural number: its decimal digits.\<close>

definition digitChar :: "nat \<Rightarrow> char" where
  "digitChar d = ''0123456789'' ! d"

fun natToString :: "nat \<Rightarrow> string" where
  "natToString n = (if n < 10 then [digitChar n] else natToString (n div 10) @ [digitChar (n mod 10)])"

declare natToString.simps [simp del]

text \<open>\<^verbatim>\<open>String.prototype.padStart\<close> with a filler of one character.\<close>

definition padStart :: "nat \<Rightarrow> char \<Rightarrow> string \<Rightarrow> string" where
  "padStart n c s = replicate (n - length s) c @ s"

text \<open>
  \<^verbatim>\<open>Number.prototype.toString\<close>: an integer below \<open>10^21\<close> in absolute value prints its
  decimal digits; any other number is printed by the host.
\<close>

definition numberToString :: "host \<Rightarrow> rat \<Rightarrow> string" where
  "numberToString h x =
     (if of_int \<lfloor>x\<rfloor> = x \<and> \<bar>x\<bar> < 10 ^ 21
      then (if x < 0 then ''-'' else []) @ natToString (nat \<lfloor>\<bar>x\<bar>\<rfloor>)
      else fractionToString h x)"

text \<open>
  The white space of \<^verbatim>\<open>\s\<close> and of \<^verbatim>\<open>trim\<close> (tab, line feed, vertical tab, form feed,
  carriage return, space, no-break space) and the word characters of \<^verbatim>\<open>\w\<close>.
\<close>

definition isSpace :: "char \<Rightarrow> bool" where
  "isSpace c = (c \<in> set [CHR 0x09, CHR 0x0A, CHR 0x0B, CHR 0x0C, CHR 0x0D, CHR 0x20, CHR 0xA0])"

definition isWord :: "char \<Rightarrow> bool" where
  "isWord c = (c \<in> set ''ABCDEFGHIJKLMNOPQRSTUVWXYZabcdefghijklmnopqrstuvwxyz0123456789_'')"

text \<open>
  \<^verbatim>\<open>String.prototype.toLowerCase\<close>: the letters A to Z, and the capital letters of the
  range \<open>0xC0\<close> to \<open>0xDE\<close> (the multiplication sign \<open>0xD7\<close> is no letter), move to their
  small forms; every other code unit below 256 stays.
\<close>

definition upperLetters :: string where
  "upperLetters = ''ABCDEFGHIJKLMNOPQRSTUVWXYZ'' @
     [CHR 0xC0, CHR 0xC1, CHR 0xC2, CHR 0xC3, CHR 0xC4, CHR 0xC5, CHR 0xC6, CHR 0xC7,
      CHR 0xC8, CHR 0xC9, CHR 0xCA, CHR 0xCB, CHR 0xCC, CHR 0xCD, CHR 0xCE, CHR 0xCF,
      CHR 0xD0, CHR 0xD1, CHR 0xD2, CHR 0xD3, CHR 0xD4, CHR 0xD5, CHR 0xD6,
      CHR 0xD8, CHR 0xD9, CHR 0xDA, CHR 0xDB, CHR 0xDC, CHR 0xDD, CHR 0xDE]"

definition lowerLetters :: string where
  "lowerLetters = ''abcdefghijklmnopqrstuvwxyz'' @
     [CHR 0xE0, CHR 0xE1, CHR 0xE2, CHR 0xE3, CHR 0xE4, CHR 0xE5, CHR 0xE6, CHR 0xE7,
      CHR 0xE8, CHR 0xE9, CHR 0xEA, CHR 0xEB, CHR 0xEC, CHR 0xED, CHR 0xEE, CHR 0xEF,
      CHR 0xF0, CHR 0xF1, CHR 0xF2, CHR 0xF3, CHR 0xF4, CHR 0xF5, CHR 0xF6,
      CHR 0xF8, CHR 0xF9, CHR 0xFA, CHR 0xFB, CHR 0xFC, CHR 0xFD, CHR 0xFE]"

definition lowerChar :: "char \<Rightarrow> char" where
  "lowerChar c = (case map_of (zip upperLetters lowerLetters) c of Some l \<Rightarrow> l | None \<Rightarrow> c)"

definition toLowerCase :: "string \<Rightarrow> string" where
  "toLowerCase s = map lowerChar s"

text \<open>\<^verbatim>\<open>s.includes(sub)\<close>: \<open>sub\<close> starts at some position of \<open>s\<close>.\<close>

fun includesStr :: "string \<Rightarrow> string \<Rightarrow> bool" where
  "includesStr [] sub = (sub = [])"
| "includesStr (c # cs) sub = (prefix sub (c # cs) \<or> includesStr cs sub)"

text \<open>\<^verbatim>\<open>String.prototype.trim\<close> and \<^verbatim>\<open>s.split(sep)\<close> for a separator of one character.\<close>

definition trim :: "string \<Rightarrow> string" where
  "trim s = rev (dropWhile isSpace (rev (dropWhile isSpace s)))"

fun splitOn :: "char \<Rightarrow> string \<Rightarrow> string list" where
  "splitOn sep [] = [[]]"
| "splitOn sep (c # cs) =
     (if c = sep then [] # splitOn sep cs
      else (case splitOn sep cs of [] \<Rightarrow> [[c]] | p # ps \<Rightarrow> (c # p) # ps))"

text \<open>\<^verbatim>\<open>Array.prototype.join\<close> on strings.\<close>

fun joinWith :: "string \<Rightarrow> string list \<Rightarrow> string" where
  "joinWith sep [] = []"
| "joinWith sep [s] = s"
| "joinWith sep (s # t # ss) = s @ sep @ joinWith sep (t # ss)"

section \<open>Values: truthiness, properties, conversions\<close>

definition truthy :: "jsval \<Rightarrow> bool" where
  "truthy v = (case v of JUndefined \<Rightarrow> False | JNull \<Rightarrow> False | JBool b \<Rightarrow> b
     | JNum x \<Rightarrow> x \<noteq> 0 | JStr s \<Rightarrow> s \<noteq> [] | JArr xs \<Rightarrow> True | JObj ps \<Rightarrow> True)"

definition nullish :: "jsval \<Rightarrow> bool" where
  "nullish v = (v = JUndefined \<or> v = JNull)"

text \<open>
  A property key is an array index when it is the decimal form of a natural number.
\<close>

definition digitValue :: "char \<Rightarrow> nat" where
  "digitValue c = (case map_of (zip ''0123456789'' [0 ..< 10]) c of Some d \<Rightarrow> d | None \<Rightarrow> 0)"

definition parseIndex :: "string \<Rightarrow> nat option" where
  "parseIndex key =
     (if key \<noteq> [] \<and> list_all (\<lambda>c. c \<in> set ''0123456789'') key
         \<and> (key = ''0'' \<or> hd key \<noteq> CHR ''0'')
      then Some (foldl (\<lambda>n c. 10 * n + digitValue c) 0 key) else None)"

text \<open>
  \<open>getProp v key\<close> is the own property \<open>key\<close> of a value that is neither \<^verbatim>\<open>undefined\<close> nor
  \<^verbatim>\<open>null\<close>: the own properties of an object, the elements and the length of an array, the
  code units and the length of a string; \<open>hasOwn v key\<close> tells whether there is one. The
  handlers read properties under fixed names (\<^verbatim>\<open>main\<close>, \<^verbatim>\<open>temp\<close>, \<^verbatim>\<open>moisture\<close>, ...) and
  under the decimal form of a number; no prototype of the standard library binds such a
  name, so for them \<^verbatim>\<open>v[key]\<close> is \<open>getProp v key\<close>. The interpolator reads under names the
  template gives; its reads are \<open>readData\<close> below.
\<close>

fun getProp :: "jsval \<Rightarrow> string \<Rightarrow> jsval" where
  "getProp (JObj ps) key = (case map_of ps key of Some v \<Rightarrow> v | None \<Rightarrow> JUndefined)"
| "getProp (JArr xs) key =
     (if key = ''length'' then JNum (of_nat (length xs))
      else (case parseIndex key of
              Some i \<Rightarrow> if i < length xs then xs ! i else JUndefined
            | None \<Rightarrow> JUndefined))"
| "getProp (JStr s) key =
     (if key = ''length'' then JNum (of_nat (length s))
      else (case parseIndex key of
              Some i \<Rightarrow> if i < length s then JStr [s ! i] else JUndefined
            | None \<Rightarrow> JUndefined))"
| "getProp v key = JUndefined"

fun hasOwn :: "jsval \<Rightarrow> string \<Rightarrow> bool" where
  "hasOwn (JObj ps) key = (map_of ps key \<noteq> None)"
| "hasOwn (JArr xs) key =
     (key = ''length'' \<or> (case parseIndex key of Some i \<Rightarrow> i < length xs | None \<Rightarrow> False))"
| "hasOwn (JStr s) key =
     (key = ''length'' \<or> (case parseIndex key of Some i \<Rightarrow> i < length s | None \<Rightarrow> False))"
| "hasOwn v key = False"

text \<open>
  \<open>readData h v key\<close> is \<^verbatim>\<open>v?.[key]\<close> for any name: the own property if there is one, and
  otherwise what the prototype of the value holds under the name. \<open>readReached\<close> is the
  same read on a value that can be one of the engine.
\<close>

definition protoOf :: "jsval \<Rightarrow> standard_prototype" where
  "protoOf v = (case v of JArr xs \<Rightarrow> ArrayPrototype | JStr s \<Rightarrow> StringPrototype
     | JNum x \<Rightarrow> NumberPrototype | JBool b \<Rightarrow> BooleanPrototype | _ \<Rightarrow> ObjectPrototype)"

definition readData :: "host \<Rightarrow> jsval \<Rightarrow> string \<Rightarrow> exn + reached" where
  "readData h v key =
     (if v = JUndefined \<or> v = JNull then Inr (Data JUndefined)
      else if hasOwn v key then Inr (Data (getProp v key))
      else inherited h (protoOf v) key)"

definition readReached :: "host \<Rightarrow> reached \<Rightarrow> string \<Rightarrow> exn + reached" where
  "readReached h r key = (case r of Data v \<Rightarrow> readData h v key | Engine n \<Rightarrow> engineGet h n key)"

text \<open>\<^verbatim>\<open>v?.[key]\<close> and \<^verbatim>\<open>v.key\<close>; the second throws on \<^verbatim>\<open>undefined\<close> and \<^verbatim>\<open>null\<close>.\<close>

definition optGet :: "jsval \<Rightarrow> string \<Rightarrow> jsval" where
  "optGet v key = (if nullish v then JUndefined else getProp v key)"

definition getMember :: "host \<Rightarrow> jsval \<Rightarrow> string \<Rightarrow> exn + jsval" where
  "getMember h v key =
     (if nullish v then Inl (TypeError (typeErrorMessage h (''read '' @ key)))
      else Inr (getProp v key))"

text \<open>
  \<^verbatim>\<open>ToString\<close>, as a template literal and \<^verbatim>\<open>v.toString()\<close> apply it. An array joins its
  elements with commas, \<^verbatim>\<open>undefined\<close> and \<^verbatim>\<open>null\<close> elements printing as nothing. An
  object prints as \<^verbatim>\<open>[object Object]\<close>; an object with an own property \<^verbatim>\<open>toString\<close>
  (which is data and cannot be called) makes the conversion throw.
\<close>

fun sequenceE :: "(exn + 'a) list \<Rightarrow> exn + 'a list" where
  "sequenceE [] = Inr []"
| "sequenceE (m # ms) =
     (case m of Inl e \<Rightarrow> Inl e
      | Inr x \<Rightarrow> (case sequenceE ms of Inl e \<Rightarrow> Inl e | Inr xs \<Rightarrow> Inr (x # xs)))"

fun ToString :: "host \<Rightarrow> jsval \<Rightarrow> exn + string" where
  "ToString h JUndefined = Inr ''undefined''"
| "ToString h JNull = Inr ''null''"
| "ToString h (JBool b) = Inr (if b then ''true'' else ''false'')"
| "ToString h (JNum x) = Inr (numberToString h x)"
| "ToString h (JStr s) = Inr s"
| "ToString h (JArr xs) =
     (case sequenceE (map (\<lambda>x. if nullish x then Inr [] else ToString h x) xs) of
        Inl e \<Rightarrow> Inl e
      | Inr ss \<Rightarrow> Inr (joinWith '','' ss))"
| "ToString h (JObj ps) =
     (if ''toString'' \<in> fst ` set ps
      then Inl (TypeError (typeErrorMessage h ''convert object to primitive value''))
      else Inr ''[object Object]'')"

text \<open>
  \<^verbatim>\<open>ToNumber\<close>: an array or an object is first converted to a string, and the host reads
  a number off a string.
\<close>

definition ToNumber :: "host \<Rightarrow> jsval \<Rightarrow> exn + jsnum" where
  "ToNumber h v =
     (case v of
        JUndefined \<Rightarrow> Inr NaN
      | JNull \<Rightarrow> Inr (Finite 0)
      | JBool b \<Rightarrow> Inr (Finite (if b then 1 else 0))
      | JNum x \<Rightarrow> Inr (Finite x)
      | JStr s \<Rightarrow> Inr (stringToNumber h s)
      | _ \<Rightarrow> (case ToString h v of Inl e \<Rightarrow> Inl e | Inr s \<Rightarrow> Inr (stringToNumber h s)))"

text \<open>\<^verbatim>\<open>a > b\<close> and \<^verbatim>\<open>a < b\<close> on numbers; a comparison with \<^verbatim>\<open>NaN\<close> is false.\<close>

fun numLess :: "jsnum \<Rightarrow> jsnum \<Rightarrow> bool" where
  "numLess NaN b = False"
| "numLess a NaN = False"
| "numLess (Finite x) (Finite y) = (x < y)"
| "numLess (Finite x) PosInfinity = True"
| "numLess (Finite x) NegInfinity = False"
| "numLess NegInfinity (Finite y) = True"
| "numLess NegInfinity PosInfinity = True"
| "numLess NegInfinity NegInfinity = False"
| "numLess PosInfinity b = False"

text \<open>
  \<^verbatim>\<open>JSON.stringify\<close>: \<open>None\<close> is the result \<^verbatim>\<open>undefined\<close>. In an array \<^verbatim>\<open>undefined\<close> prints
  as \<^verbatim>\<open>null\<close>; in an object a property whose value is \<^verbatim>\<open>undefined\<close> is left out.
\<close>

definition hexDigit :: "nat \<Rightarrow> char" where
  "hexDigit d = ''0123456789abcdef'' ! d"

definition quoteChar :: "char \<Rightarrow> string" where
  "quoteChar c =
     (if c = CHR 0x22 then [CHR 0x5C, CHR 0x22]
      else if c = CHR 0x5C then [CHR 0x5C, CHR 0x5C]
      else if c = CHR 0x08 then [CHR 0x5C, CHR ''b'']
      else if c = CHR 0x0C then [CHR 0x5C, CHR ''f'']
      else if c = CHR 0x0A then [CHR 0x5C, CHR ''n'']
      else if c = CHR 0x0D then [CHR 0x5C, CHR ''r'']
      else if c = CHR 0x09 then [CHR 0x5C, CHR ''t'']
      else if (of_char c :: nat) < 32
        then [CHR 0x5C, CHR ''u'', CHR ''0'', CHR ''0'',
              hexDigit (of_char c div 16), hexDigit (of_char c mod 16)]
      else [c])"

definition quoteJSON :: "string \<Rightarrow> string" where
  "quoteJSON s = [CHR 0x22] @ concat (map quoteChar s) @ [CHR 0x22]"

fun JSON_stringify :: "host \<Rightarrow> jsval \<Rightarrow> string option" where
  "JSON_stringify h JUndefined = None"
| "JSON_stringify h JNull = Some ''null''"
| "JSON_stringify h (JBool b) = Some (if b then ''true'' else ''false'')"
| "JSON_stringify h (JNum x) = Some (numberToString h x)"
| "JSON_stringify h (JStr s) = Some (quoteJSON s)"
| "JSON_stringify h (JArr xs) =
     Some (''['' @ joinWith '',''
        (map (\<lambda>x. case JSON_stringify h x of None \<Rightarrow> ''null'' | Some j \<Rightarrow> j) xs) @ '']'')"
| "JSON_stringify h (JObj ps) =
     Some (''{'' @ joinWith '',''
        (concat (map (\<lambda>(k, v). case JSON_stringify h v of None \<Rightarrow> []
                                 | Some j \<Rightarrow> [quoteJSON k @ '':'' @ j]) ps)) @ ''}'')"

section \<open>The result bag\<close>

text \<open>
  \<^verbatim>\<open>workflowResults: Record<string, any>\<close> is an object: a finite map of its own properties
  and its prototype. The prototype is the one of every object, until an assignment to
  the name \<^verbatim>\<open>__proto__\<close> (a step may name any output) replaces it by a value of the run or
  takes it away.
\<close>

datatype bag_prototype = StandardPrototype | NoPrototype | ReplacedPrototype jsval

record bag =
  own :: "string \<rightharpoonup> jsval"
  proto :: bag_prototype

text \<open>The object \<^verbatim>\<open>{ inputs }\<close>.\<close>

definition newBag :: "jsval \<Rightarrow> bag" where
  "newBag inputs = \<lparr>own = [''inputs'' \<mapsto> inputs], proto = StandardPrototype\<rparr>"

text \<open>
  \<open>lookup b key\<close> is \<^verbatim>\<open>this.workflowResults[key]\<close> as far as it is data: an own property,
  or a property of the value that has replaced the prototype (\<^verbatim>\<open>__proto__\<close> reads as that
  value itself). A name that only the prototype of every object binds (\<^verbatim>\<open>constructor\<close>,
  \<^verbatim>\<open>toString\<close>, ...) reads as a function or an object of the engine, for which \<open>lookup\<close>
  gives \<open>JUndefined\<close>. The agent uses such a read in two ways: under one of the fixed names
  \<^verbatim>\<open>inputs\<close>, \<^verbatim>\<open>weather_data\<close>, \<^verbatim>\<open>soil_data\<close>, \<^verbatim>\<open>disease_report\<close>, \<^verbatim>\<open>allocation_plan\<close>, which that
  prototype does not bind, and in \<^verbatim>\<open>evaluateCondition\<close>, which only asks whether the value
  is a string. \<open>readBag\<close> is the read of the interpolator, which goes on from what it
  finds.
\<close>

definition lookup :: "bag \<Rightarrow> string \<Rightarrow> jsval" where
  "lookup b key =
     (case own b key of
        Some v \<Rightarrow> v
      | None \<Rightarrow>
          (case proto b of
             ReplacedPrototype p \<Rightarrow>
               if hasOwn p key then getProp p key
               else if key = ''__proto__'' then p else JUndefined
           | _ \<Rightarrow> JUndefined))"

definition readBag :: "host \<Rightarrow> bag \<Rightarrow> string \<Rightarrow> exn + reached" where
  "readBag h b key =
     (case own b key of
        Some v \<Rightarrow> Inr (Data v)
      | None \<Rightarrow>
          (case proto b of
             StandardPrototype \<Rightarrow> inherited h ObjectPrototype key
           | NoPrototype \<Rightarrow> Inr (Data JUndefined)
           | ReplacedPrototype p \<Rightarrow>
               if hasOwn p key then Inr (Data (getProp p key))
               else if key = ''__proto__'' then Inr (Data p)
               else inherited h (protoOf p) key))"

text \<open>
  \<open>assign b key v\<close> is \<^verbatim>\<open>this.workflowResults[key] = v\<close>. The name \<^verbatim>\<open>__proto__\<close> is an accessor
  of the prototype of every object: as long as the bag inherits it (the bag has no own
  property of that name, and neither has a value that replaced its prototype), the
  assignment sets the prototype of the bag when \<open>v\<close> is an object, an array or \<^verbatim>\<open>null\<close>,
  and does nothing for any other \<open>v\<close>. Every other assignment makes or updates an own
  property.
\<close>

definition setterInherited :: "bag \<Rightarrow> bool" where
  "setterInherited b =
     (case proto b of StandardPrototype \<Rightarrow> True | NoPrototype \<Rightarrow> False
      | ReplacedPrototype p \<Rightarrow> \<not> hasOwn p ''__proto__'')"

definition assign :: "bag \<Rightarrow> string \<Rightarrow> jsval \<Rightarrow> bag" where
  "assign b key v =
     (if key = ''__proto__'' \<and> own b key = None \<and> setterInherited b
      then (case v of
              JObj ps \<Rightarrow> b\<lparr>proto := ReplacedPrototype v\<rparr>
            | JArr xs \<Rightarrow> b\<lparr>proto := ReplacedPrototype v\<rparr>
            | JNull \<Rightarrow> b\<lparr>proto := NoPrototype\<rparr>
            | _ \<Rightarrow> b)
      else b\<lparr>own := (own b)(key \<mapsto> v)\<rparr>)"

section \<open>The condition evaluator\<close>

text \<open>
  The regular expression \<^verbatim>\<open>/(\w+)\s+contains\s+'([^']+)'/i\<close>. \<open>guardAt s\<close> matches it at
  the start of \<open>s\<close> and returns the two groups. Every repetition takes the longest run
  of its class: the class and the character that must follow are disjoint, so giving
  characters back never turns a failure into a match. Under the flag \<^verbatim>\<open>i\<close> the word
  \<^verbatim>\<open>contains\<close> matches in any mix of cases. \<open>guardSearch\<close> is \<^verbatim>\<open>condition.match\<close>: the
  match at the leftmost position that has one.
\<close>

definition guardAt :: "string \<Rightarrow> (string \<times> string) option" where
  "guardAt s =
     (let variable = takeWhile isWord s;
          r1 = dropWhile isWord s;
          r2 = dropWhile isSpace r1;
          r3 = drop 8 r2;
          r4 = dropWhile isSpace r3;
          searchTerm = takeWhile (\<lambda>c. c \<noteq> CHR 0x27) (drop 1 r4);
          r5 = dropWhile (\<lambda>c. c \<noteq> CHR 0x27) (drop 1 r4)
      in if variable \<noteq> [] \<and> takeWhile isSpace r1 \<noteq> []
            \<and> toLowerCase (take 8 r2) = ''contains''
            \<and> takeWhile isSpace r3 \<noteq> []
            \<and> take 1 r4 = [CHR 0x27]
            \<and> searchTerm \<noteq> []
            \<and> take 1 r5 = [CHR 0x27]
         then Some (variable, searchTerm) else None)"

fun guardSearch :: "string \<Rightarrow> (string \<times> string) option" where
  "guardSearch [] = None"
| "guardSearch (c # cs) =
     (case guardAt (c # cs) of Some m \<Rightarrow> Some m | None \<Rightarrow> guardSearch cs)"

text \<open>
  \<^verbatim>\<open>evaluateCondition\<close>. The condition is a string, so nothing in the \<^verbatim>\<open>try\<close> block throws.
\<close>

definition evaluateCondition :: "bag \<Rightarrow> string \<Rightarrow> bool" where
  "evaluateCondition b condition =
     (if includesStr condition ''contains''
      then (case guardSearch condition of
              Some (variable, searchTerm) \<Rightarrow>
                (case lookup b variable of
                   JStr v \<Rightarrow> includesStr (toLowerCase v) (toLowerCase searchTerm)
                 | _ \<Rightarrow> True)
            | None \<Rightarrow> True)
      else True)"

section \<open>The template interpolator\<close>

text \<open>
  The regular expression \<^verbatim>\<open>/\{\{([^}]+)\}\}/g\<close>. \<open>placeholderAt s\<close> matches it at the start
  of \<open>s\<close> and returns the group and what follows the match; the group is the longest run
  without a closing brace, for the reason given above.
\<close>

definition placeholderAt :: "string \<Rightarrow> (string \<times> string) option" where
  "placeholderAt s =
     (let path = takeWhile (\<lambda>c. c \<noteq> CHR ''}'') (drop 2 s);
          r = dropWhile (\<lambda>c. c \<noteq> CHR ''}'') (drop 2 s)
      in if take 2 s = ''{{'' \<and> path \<noteq> [] \<and> take 2 r = ''}}''
         then Some (path, drop 2 r) else None)"

lemma placeholderAt_shorter: "placeholderAt s = Some (path, r) \<Longrightarrow> length r < length s"
proof -
  assume a: "placeholderAt s = Some (path, r)"
  have "length (dropWhile (\<lambda>c. c \<noteq> CHR ''}'') (drop 2 s)) \<le> length (drop 2 s)"
    by (rule length_dropWhile_le)
  moreover have "take 2 s = ''{{''" "r = drop 2 (dropWhile (\<lambda>c. c \<noteq> CHR ''}'') (drop 2 s))"
    using a by (auto simp: placeholderAt_def Let_def split: if_splits)
  moreover from this have "s \<noteq> []" by auto
  ultimately show ?thesis by (cases s) auto
qed

text \<open>
  \<^verbatim>\<open>template.replace(regex, callback)\<close> with the flag \<^verbatim>\<open>g\<close>: every match, from left to
  right and without overlap, gives way to what the callback returns for the matched text
  and the group; the text between the matches stays. The first call of the callback that
  throws ends the replacement with its exception.
\<close>

definition appendE :: "exn + string \<Rightarrow> exn + string \<Rightarrow> exn + string" where
  "appendE a b =
     (case a of Inl e \<Rightarrow> Inl e
      | Inr x \<Rightarrow> (case b of Inl e \<Rightarrow> Inl e | Inr y \<Rightarrow> Inr (x @ y)))"

function replacePlaceholders :: "(string \<Rightarrow> string \<Rightarrow> exn + string) \<Rightarrow> string \<Rightarrow> exn + string" where
  "replacePlaceholders f [] = Inr []"
| "replacePlaceholders f (c # cs) =
     (case placeholderAt (c # cs) of
        Some (path, r) \<Rightarrow> appendE (f (''{{'' @ path @ ''}}'') path) (replacePlaceholders f r)
      | None \<Rightarrow> appendE (Inr [c]) (replacePlaceholders f cs))"
  by pat_completeness auto
termination
  by (relation "measure (\<lambda>(f, s). length s)") (auto dest: placeholderAt_shorter)

text \<open>
  The callback of \<^verbatim>\<open>interpolateTemplate\<close> walks the path from the bag with \<^verbatim>\<open>value?.[key]\<close>:
  the first key is read from the bag, every further key from what the read before it
  reached (\<^verbatim>\<open>split\<close> returns at least one key, so the first equation of \<open>resolvePath\<close> is
  never used). A read on a value of the engine may throw, and the walk ends with that
  exception.
  \<^verbatim>\<open>typeof value === 'string' ? value : JSON.stringify(value) || match\<close> gives the matched
  text when \<^verbatim>\<open>JSON.stringify\<close> returns \<^verbatim>\<open>undefined\<close> (for \<^verbatim>\<open>undefined\<close> and for a function) or
  the empty text.
\<close>

fun walk :: "host \<Rightarrow> exn + reached \<Rightarrow> string list \<Rightarrow> exn + reached" where
  "walk h r [] = r"
| "walk h r (key # keys) =
     walk h (case r of Inl e \<Rightarrow> Inl e | Inr v \<Rightarrow> readReached h v key) keys"

fun resolvePath :: "host \<Rightarrow> bag \<Rightarrow> string list \<Rightarrow> exn + reached" where
  "resolvePath h b [] = Inr (Data JUndefined)"
| "resolvePath h b (key # keys) = walk h (readBag h b key) keys"

definition orMatch :: "string \<Rightarrow> string option \<Rightarrow> string" where
  "orMatch match j = (case j of None \<Rightarrow> match | Some t \<Rightarrow> if t = [] then match else t)"

definition substitute :: "host \<Rightarrow> bag \<Rightarrow> string \<Rightarrow> string \<Rightarrow> exn + string" where
  "substitute h b match path =
     (case resolvePath h b (splitOn (CHR ''.'') (trim path)) of
        Inl e \<Rightarrow> Inl e
      | Inr (Data (JStr s)) \<Rightarrow> Inr s
      | Inr (Data v) \<Rightarrow> Inr (orMatch match (JSON_stringify h v))
      | Inr (Engine n) \<Rightarrow>
          (case engineJSON h n of Inl e \<Rightarrow> Inl e | Inr j \<Rightarrow> Inr (orMatch match j)))"

definition interpolateTemplate :: "host \<Rightarrow> bag \<Rightarrow> string \<Rightarrow> exn + string" where
  "interpolateTemplate h b template = replacePlaceholders (substitute h b) template"

section \<open>Arithmetic on converted numbers\<close>

text \<open>
  \<^verbatim>\<open>v > x\<close> and \<^verbatim>\<open>v < x\<close> for a value and a number, \<^verbatim>\<open>n - 1\<close>, \<^verbatim>\<open>n * 100\<close>, the string of
  a number as a property key, and \<^verbatim>\<open>n.toFixed(0)\<close>.
\<close>

definition greaterThan :: "host \<Rightarrow> jsval \<Rightarrow> rat \<Rightarrow> exn + bool" where
  "greaterThan h v x = (case ToNumber h v of Inl e \<Rightarrow> Inl e | Inr n \<Rightarrow> Inr (numLess (Finite x) n))"

definition lessThan :: "host \<Rightarrow> jsval \<Rightarrow> rat \<Rightarrow> exn + bool" where
  "lessThan h v x = (case ToNumber h v of Inl e \<Rightarrow> Inl e | Inr n \<Rightarrow> Inr (numLess n (Finite x)))"

definition minusOne :: "jsnum \<Rightarrow> jsnum" where
  "minusOne n = (case n of Finite x \<Rightarrow> Finite (x - 1) | _ \<Rightarrow> n)"

definition timesHundred :: "jsnum \<Rightarrow> jsnum" where
  "timesHundred n = (case n of Finite x \<Rightarrow> Finite (x * 100) | _ \<Rightarrow> n)"

definition jsnumToString :: "host \<Rightarrow> jsnum \<Rightarrow> string" where
  "jsnumToString h n = (case n of Finite x \<Rightarrow> numberToString h x | NaN \<Rightarrow> ''NaN''
     | PosInfinity \<Rightarrow> ''Infinity'' | NegInfinity \<Rightarrow> ''-Infinity'')"

definition toFixed0 :: "host \<Rightarrow> jsnum \<Rightarrow> string" where
  "toFixed0 h n =
     (case n of
        Finite x \<Rightarrow>
          (if x < 0 then ''-'' else []) @
          (if \<bar>x\<bar> \<ge> 10 ^ 21 then numberToString h \<bar>x\<bar>
           else natToString (nat \<lfloor>\<bar>x\<bar> + 1 / 2\<rfloor>))
      | _ \<Rightarrow> jsnumToString h n)"

text \<open>Sequencing of computations that may throw.\<close>

definition thenE :: "exn + 'a \<Rightarrow> ('a \<Rightarrow> exn + 'b) \<Rightarrow> exn + 'b" where
  "thenE m f = (case m of Inl e \<Rightarrow> Inl e | Inr x \<Rightarrow> f x)"

text \<open>
  \<^verbatim>\<open>v.toLowerCase()\<close> for a value that is neither \<^verbatim>\<open>undefined\<close> nor \<^verbatim>\<open>null\<close>: only a string
  has the method. \<^verbatim>\<open>typeof v === 'string' ? v.toLowerCase() : v\<close> is \<open>lowerIfString\<close>.
\<close>

definition callToLowerCase :: "host \<Rightarrow> jsval \<Rightarrow> exn + string" where
  "callToLowerCase h v =
     (case v of JStr s \<Rightarrow> Inr (toLowerCase s)
      | _ \<Rightarrow> Inl (TypeError (typeErrorMessage h ''call toLowerCase'')))"

definition lowerIfString :: "jsval \<Rightarrow> jsval" where
  "lowerIfString v = (case v of JStr s \<Rightarrow> JStr (toLowerCase s) | _ \<Rightarrow> v)"

text \<open>\<^verbatim>\<open>a || b\<close> on values.\<close>

definition orElse :: "jsval \<Rightarrow> jsval \<Rightarrow> jsval" where
  "orElse a d = (if truthy a then a else d)"

section \<open>The soil-data generator\<close>

text \<open>
  \<^verbatim>\<open>generateSoilData\<close>. The date of the loop is the day of September 2025 it stands for
  (\<^verbatim>\<open>startDate\<close> is day 24, \<^verbatim>\<open>endDate\<close> day 29, and \<^verbatim>\<open>setDate(getDate() + 1)\<close> adds one):
  the dates of the source are local midnights, and the model takes it that the time zone
  of the host moves no clock at midnight in these days, so that comparing two of them
  compares their days. One sample reads \<^verbatim>\<open>Math.random()\<close> three times.
\<close>

definition soilSample :: "host \<Rightarrow> nat \<Rightarrow> nat \<Rightarrow> nat \<Rightarrow> SoilData \<times> nat" where
  "soilSample h currentDate hour k =
     (let a = Math_round ((random h k * (300 - 293) + 293) * 100) / 100;
          b = Math_round ((a - (random h (k + 1) * (3 - 3 / 2) + 3 / 2)) * 100) / 100;
          m = Math_round ((random h (k + 2) * (26 / 100 - 18 / 100) + 18 / 100) * 100) / 100
      in (\<lparr>date = isoDate h currentDate,
           time = padStart 2 (CHR ''0'') (natToString hour) @ '':00'',
           t0 = a, t10 = b, moisture = m\<rparr>, k + 3))"

fun hoursLoop :: "host \<Rightarrow> nat \<Rightarrow> nat list \<Rightarrow> SoilData list \<times> nat \<Rightarrow> SoilData list \<times> nat" where
  "hoursLoop h currentDate [] (data, k) = (data, k)"
| "hoursLoop h currentDate (hour # hours) (data, k) =
     (let (s, k') = soilSample h currentDate hour k
      in hoursLoop h currentDate hours (data @ [s], k'))"

function daysLoop :: "host \<Rightarrow> nat \<Rightarrow> SoilData list \<times> nat \<Rightarrow> SoilData list \<times> nat" where
  "daysLoop h currentDate st =
     (if currentDate \<le> 29
      then daysLoop h (currentDate + 1) (hoursLoop h currentDate [9, 15] st)
      else st)"
  by pat_completeness auto
termination
  by (relation "measure (\<lambda>(h, currentDate, st). 30 - currentDate)") auto

declare daysLoop.simps [simp del]

definition generateSoilData :: "host \<Rightarrow> nat \<Rightarrow> SoilData list \<times> nat" where
  "generateSoilData h k = daysLoop h 24 ([], k)"

section \<open>The step handlers\<close>

text \<open>
  \<^verbatim>\<open>simulateQueryRefiner\<close>. The tests for the Urdu words are left out: they hold code units
  above 255, which no string of the model holds, so each of them is false.
\<close>

definition simulateQueryRefiner :: "host \<Rightarrow> bag \<Rightarrow> exn + jsval" where
  "simulateQueryRefiner h b =
     (let q = optGet (lookup b ''inputs'') ''farmer_query''
      in thenE (if nullish q then Inr [] else callToLowerCase h q) (\<lambda>farmerQuery.
           Inr (JStr
             (if includesStr farmerQuery ''barsat'' \<or> includesStr farmerQuery ''rain''
                 \<or> includesStr farmerQuery ''weather''
              then ''weather forecast and precipitation analysis needed''
              else if includesStr farmerQuery ''paani'' \<or> includesStr farmerQuery ''water''
                 \<or> includesStr farmerQuery ''irrigation''
              then ''resource allocation for water irrigation required''
              else if includesStr farmerQuery ''disease'' \<or> includesStr farmerQuery ''leaf''
              then ''disease detection and crop health analysis needed''
              else if includesStr farmerQuery ''fertilizer'' \<or> includesStr farmerQuery ''khad''
              then ''resource allocation for fertilizer application required''
              else if includesStr farmerQuery ''soil'' \<or> includesStr farmerQuery ''mitti''
              then ''soil analysis and moisture monitoring needed''
              else ''general agricultural advice and resource guidance needed''))))"

text \<open>\<^verbatim>\<open>simulateDiseaseDetection\<close>: one draw chooses among the three reports.\<close>

definition diseases :: "jsval list" where
  "diseases =
     [JObj [(''condition'', JStr ''Early Blight''),
            (''explanation'', JStr ''Your crop shows signs of early blight disease with dark spots on leaves''),
            (''treatment'', JStr ''Apply copper-based fungicide every 7 days and remove affected leaves'')],
      JObj [(''condition'', JStr ''Leaf Rust''),
            (''explanation'', JStr ''Orange-brown spots indicate leaf rust affecting your crop''),
            (''treatment'', JStr ''Use sulfur-based spray and improve air circulation around plants'')],
      JObj [(''condition'', JStr ''Healthy''),
            (''explanation'', JStr ''Your crop leaves look healthy with good green color''),
            (''treatment'', JStr ''Continue current care practices and monitor regularly'')]]"

definition simulateDiseaseDetection :: "host \<Rightarrow> nat \<Rightarrow> jsval \<times> nat" where
  "simulateDiseaseDetection h k =
     (let i = \<lfloor>random h k * of_nat (length diseases)\<rfloor>
      in (if 0 \<le> i \<and> nat i < length diseases then diseases ! nat i else JUndefined, k + 1))"

text \<open>
  \<open>latestOf h xs\<close> is \<^verbatim>\<open>xs[xs.length - 1]\<close>, and \<open>nonEmpty h xs\<close> is
  \<^verbatim>\<open>xs && xs.length > 0\<close>, for any value \<open>xs\<close>.
\<close>

definition nonEmpty :: "host \<Rightarrow> jsval \<Rightarrow> exn + bool" where
  "nonEmpty h xs = (if truthy xs then greaterThan h (getProp xs ''length'') 0 else Inr False)"

definition latestOf :: "host \<Rightarrow> jsval \<Rightarrow> exn + jsval" where
  "latestOf h xs =
     thenE (ToNumber h (getProp xs ''length'')) (\<lambda>n.
       Inr (getProp xs (jsnumToString h (minusOne n))))"

text \<open>\<^verbatim>\<open>simulateAllocationAgent\<close>, the fields of the plan in the order of the source.\<close>

definition simulateAllocationAgent :: "host \<Rightarrow> bag \<Rightarrow> exn + jsval" where
  "simulateAllocationAgent h b =
     thenE (getMember h (lookup b ''inputs'') ''farmer_query'') (\<lambda>farmerQuery.
     let weatherData = lookup b ''weather_data'';
         soilData = lookup b ''soil_data''
     in
     thenE (if nullish farmerQuery
            then Inl (TypeError (typeErrorMessage h ''read toLowerCase''))
            else callToLowerCase h farmerQuery) (\<lambda>lq.
     let isWaterRequest = includesStr lq ''water'' \<or> includesStr lq ''paani'';
         isFertilizerRequest = includesStr lq ''fertilizer'' \<or> includesStr lq ''khad''
     in
     thenE (greaterThan h (optGet (optGet weatherData ''main'') ''temp'') 30) (\<lambda>hot.
     thenE (nonEmpty h soilData) (\<lambda>hasSoil.
     thenE (if hasSoil
            then thenE (latestOf h soilData) (\<lambda>latest. getMember h latest ''moisture'')
            else Inr (JNum (22 / 100))) (\<lambda>soilMoisture.
     Inr (JObj
       [(''request'', farmerQuery),
        (''allocation'', JObj
           [(''approved_percent'',
               JNum (if isWaterRequest then 85 else if isFertilizerRequest then 75 else 70)),
            (''delivery_schedule'', JStr ''Within 2-3 days''),
            (''priority'', JStr (if hot then ''High'' else ''Medium''))]),
        (''analysis'', JObj
           [(''soil_moisture'', soilMoisture),
            (''recommendation'',
               JStr (if isWaterRequest
                     then ''Increase irrigation frequency due to high temperature''
                     else ''Apply during cooler hours''))]),
        (''weather'', JObj
           [(''temperature_c'', orElse (optGet (optGet weatherData ''main'') ''temp'') (JNum 28)),
            (''humidity_percent'',
               orElse (optGet (optGet weatherData ''main'') ''humidity'') (JNum 65)),
            (''condition'',
               orElse (optGet (optGet (optGet weatherData ''weather'') ''0'') ''description'')
                 (JStr ''partly cloudy''))]),
        (''next_steps'', JArr
           [JStr ''Confirm pickup location and timing'',
            JStr ''Prepare application equipment'',
            JStr ''Monitor crop response after application''])]))))))"

text \<open>
  \<^verbatim>\<open>simulateResponseFormatter\<close>. The response grows by five parts in turn: the
  acknowledgment, the weather, the soil, the disease and the allocation. Any of the last
  four can throw (a property read on \<^verbatim>\<open>undefined\<close>, a conversion).
\<close>

definition formatterQuery :: "host \<Rightarrow> bag \<Rightarrow> exn + string" where
  "formatterQuery h b =
     (let q = optGet (lookup b ''inputs'') ''farmer_query''
      in if nullish q then Inr [] else ToString h q)"

definition rainExpected :: "host \<Rightarrow> jsval \<Rightarrow> exn + bool" where
  "rainExpected h weatherData =
     (let d = optGet (optGet (optGet weatherData ''weather'') ''0'') ''description''
      in if (case d of JStr s \<Rightarrow> s \<noteq> [] \<and> includesStr s ''rain'' | _ \<Rightarrow> False) then Inr True
         else greaterThan h (optGet (optGet weatherData ''main'') ''humidity'') 80)"

definition acknowledgment :: "host \<Rightarrow> string \<Rightarrow> jsval \<Rightarrow> exn + string" where
  "acknowledgment h farmerQuery weatherData =
     (let lq = toLowerCase farmerQuery
      in if farmerQuery \<noteq> [] \<and> (includesStr lq ''barsat'' \<or> includesStr lq ''rain'')
         then thenE (rainExpected h weatherData) (\<lambda>rain.
                Inr (''Based on current weather data, '' @
                  (if rain then ''there'' @ [CHR 0x27] @ ''s a good chance of rain in the next day or two. ''
                   else ''rain is not expected immediately, but humidity levels suggest possible showers later. '')))
         else if farmerQuery \<noteq> [] \<and> (includesStr lq ''paani'' \<or> includesStr lq ''water'')
         then Inr ''I understand you need water for your crops. ''
         else if farmerQuery \<noteq> [] \<and> (includesStr lq ''fertilizer'' \<or> includesStr lq ''khad'')
         then Inr ''Regarding your fertilizer needs, ''
         else Inr ''Based on your farming question, '')"

definition weatherPart :: "host \<Rightarrow> jsval \<Rightarrow> exn + string" where
  "weatherPart h weatherData =
     (if truthy weatherData
      then thenE (getMember h (getProp weatherData ''main'') ''temp'') (\<lambda>temp.
           thenE (ToString h temp) (\<lambda>tempText.
           thenE (ToString h (getProp (getProp weatherData ''main'') ''humidity'')) (\<lambda>humidityText.
           thenE (greaterThan h temp 30) (\<lambda>hot.
           thenE (if hot then Inr False else lessThan h temp 20) (\<lambda>cool.
             Inr (''Current temperature is '' @ tempText @ [CHR 0xB0] @ ''C with '' @ humidityText
                  @ ''% humidity. ''
                  @ (if hot then ''It'' @ [CHR 0x27] @ ''s quite hot, so your crops will need more water. ''
                     else if cool then ''The weather is cool, which is good for most crops. ''
                     else [])))))))
      else Inr [])"

definition soilPart :: "host \<Rightarrow> jsval \<Rightarrow> exn + string" where
  "soilPart h soilData =
     thenE (nonEmpty h soilData) (\<lambda>hasSoil.
       if hasSoil
       then thenE (latestOf h soilData) (\<lambda>latestSoil.
            thenE (getMember h latestSoil ''moisture'') (\<lambda>m.
            thenE (ToNumber h m) (\<lambda>n.
            thenE (lessThan h m (2 / 10)) (\<lambda>low.
            thenE (if low then Inr False else greaterThan h m (25 / 100)) (\<lambda>good.
              Inr (''Your soil moisture is at '' @ toFixed0 h (timesHundred n) @ ''%. ''
                   @ (if low then ''This is on the low side, so consider watering your crops soon. ''
                      else if good
                      then ''Moisture levels are good, so you can wait a day before the next watering. ''
                      else [])))))))
       else Inr [])"

definition diseasePart :: "host \<Rightarrow> jsval \<Rightarrow> exn + string" where
  "diseasePart h diseaseReport =
     (if truthy diseaseReport
      then (let c = getProp diseaseReport ''condition''
            in if truthy c \<and> c \<noteq> JStr ''Healthy''
               then thenE (ToString h (lowerIfString c)) (\<lambda>conditionText.
                    thenE (ToString h (orElse (getProp diseaseReport ''explanation'')
                             (JStr ''Please monitor your crops closely.''))) (\<lambda>explanationText.
                    thenE (ToString h (orElse (lowerIfString (getProp diseaseReport ''treatment''))
                             (JStr ''consult with local agricultural experts''))) (\<lambda>treatmentText.
                      Inr (''I noticed signs of '' @ conditionText @ '' in your crop. ''
                           @ explanationText @ '' ''
                           @ ''My recommendation: '' @ treatmentText @ ''. ''))))
               else Inr ''Your crops look healthy, which is great! '')
      else Inr [])"

definition allocationPart :: "host \<Rightarrow> jsval \<Rightarrow> exn + string" where
  "allocationPart h allocationPlan =
     (if truthy allocationPlan
      then thenE (getMember h (getProp allocationPlan ''allocation'') ''approved_percent'') (\<lambda>percent.
           thenE (ToString h percent) (\<lambda>percentText.
           thenE (ToString h (lowerIfString
                    (getProp (getProp allocationPlan ''allocation'') ''delivery_schedule''))) (\<lambda>scheduleText.
             Inr (''Regarding your request for resources, I can approve '' @ percentText
                  @ ''% of what you asked for. ''
                  @ ''Delivery can be arranged '' @ scheduleText @ ''. ''))))
      else Inr [])"

definition assembleResponse :: "host \<Rightarrow> bag \<Rightarrow> exn + string" where
  "assembleResponse h b =
     thenE (formatterQuery h b) (\<lambda>farmerQuery.
     thenE (acknowledgment h farmerQuery (lookup b ''weather_data'')) (\<lambda>p1.
     thenE (weatherPart h (lookup b ''weather_data'')) (\<lambda>p2.
     thenE (soilPart h (lookup b ''soil_data'')) (\<lambda>p3.
     thenE (diseasePart h (lookup b ''disease_report'')) (\<lambda>p4.
     thenE (allocationPart h (lookup b ''allocation_plan'')) (\<lambda>p5.
       Inr (p1 @ p2 @ p3 @ p4 @ p5)))))))"

definition farmingTips :: string where
  "farmingTips = ''Pro tip: Water your crops early morning or late evening to reduce evaporation. ''
     @ ''Also, keep checking your plants daily for any changes in color or growth patterns.''"

definition genericAdvice :: string where
  "genericAdvice = ''Based on general farming practices, water your crops in the morning, ''
     @ ''check for pests regularly, and monitor soil moisture. ''
     @ ''Keep an eye on weather patterns and adjust your irrigation accordingly.''"

definition simulateResponseFormatter :: "host \<Rightarrow> bag \<Rightarrow> exn + string" where
  "simulateResponseFormatter h b =
     thenE (assembleResponse h b) (\<lambda>response.
       Inr (trim (if length response > 50 then response @ farmingTips else genericAdvice)))"

text \<open>\<^verbatim>\<open>getWeatherData\<close>: every failure inside the \<^verbatim>\<open>try\<close> block ends in the fixed record.\<close>

definition fallbackWeather :: jsval where
  "fallbackWeather =
     JObj [(''main'', JObj [(''temp'', JNum 28), (''humidity'', JNum 65), (''pressure'', JNum 1013)]),
           (''weather'', JArr [JObj [(''main'', JStr ''Clear''), (''description'', JStr ''clear sky'')]]),
           (''wind'', JObj [(''speed'', JNum (35 / 10))])]"

definition getWeatherData :: "host \<Rightarrow> nat \<Rightarrow> WorkflowStep \<Rightarrow> jsval \<times> nat" where
  "getWeatherData h k step =
     (case fetch h k step of
        RequestFailed \<Rightarrow> (fallbackWeather, k + 1)
      | Response ok body \<Rightarrow>
          if \<not> ok then (fallbackWeather, k + 1)
          else (case body of None \<Rightarrow> (fallbackWeather, k + 1) | Some v \<Rightarrow> (v, k + 1)))"

section \<open>The fallback table\<close>

text \<open>
  The first statement of \<^verbatim>\<open>getFallbackResult\<close> is \<^verbatim>\<open>const fallbacks = this.config.fallbacks\<close>.
  The value it reads is never used, but the read throws when the stored configuration
  is \<^verbatim>\<open>undefined\<close> or \<^verbatim>\<open>null\<close>; \<open>readFallbacks\<close> is that statement.
\<close>

definition readFallbacks :: "host \<Rightarrow> stored_config \<Rightarrow> exn + unit" where
  "readFallbacks h config =
     (case config of
        ConfigUndefined \<Rightarrow> Inl (TypeError (typeErrorMessage h ''read fallbacks of undefined''))
      | ConfigNull \<Rightarrow> Inl (TypeError (typeErrorMessage h ''read fallbacks of null''))
      | ConfigObject c \<Rightarrow> Inr ())"

text \<open>
  \<open>getFallbackResult\<close> is the rest of the method, the \<^verbatim>\<open>switch\<close>. The soil entry reads the
  clock at tick \<open>k\<close>; the allocation entry reads the bag. The two callers are the \<^verbatim>\<open>catch\<close>
  block of a step, which runs only when the configuration is an object (the loop has
  read its \<^verbatim>\<open>workflow\<close>), so that the first statement does nothing there, and the outer
  \<^verbatim>\<open>catch\<close> block of \<^verbatim>\<open>execute\<close>, which is \<open>readFallbacks\<close> followed by \<open>getFallbackResult\<close>.
\<close>

definition getFallbackResult :: "host \<Rightarrow> nat \<Rightarrow> bag \<Rightarrow> string \<Rightarrow> jsval" where
  "getFallbackResult h k b stepId =
     (if stepId = ''query_refiner''
      then JStr ''general agricultural advice and resource guidance needed''
      else if stepId = ''weather_api''
      then JStr ''Weather conditions are moderate. Check local forecasts for rain.''
      else if stepId = ''soil_data''
      then JArr [JObj [(''date'', JStr (today h k)), (''time'', JStr ''09:00''),
                       (''t0'', JNum 295), (''t10'', JNum 293), (''moisture'', JNum (20 / 100))]]
      else if stepId = ''disease_detection''
      then JObj [(''condition'', JStr ''Unknown''),
                 (''explanation'', JStr ''Unable to analyze image. Check for yellowing, spots, or wilting.''),
                 (''treatment'', JStr ''Apply general fungicide and improve plant care.'')]
      else if stepId = ''allocation_agent''
      then JObj
        [(''request'', orElse (optGet (lookup b ''inputs'') ''farmer_query'') (JStr ''Resource request'')),
         (''allocation'', JObj
            [(''approved_percent'', JNum 70),
             (''delivery_schedule'', JStr ''Within 3-5 days''),
             (''priority'', JStr ''Medium'')]),
         (''analysis'', JObj
            [(''soil_moisture'', JNum (20 / 100)),
             (''recommendation'', JStr ''Monitor crop conditions regularly'')]),
         (''weather'', JObj
            [(''temperature_c'', JNum 25),
             (''humidity_percent'', JNum 60),
             (''condition'', JStr ''partly cloudy'')]),
         (''next_steps'', JArr
            [JStr ''Contact local cooperative'', JStr ''Prepare application area'',
             JStr ''Schedule follow-up''])]
      else if stepId = ''response_formatter''
      then JStr genericAdvice
      else JStr ''Information not available at the moment. Please try again later.'')"

section \<open>Step dispatch\<close>

text \<open>
  \<^verbatim>\<open>executeModelCall\<close>: the prompt is \<^verbatim>\<open>step.input?.prompt || ''\<close>; a prompt that is no
  string has no method \<^verbatim>\<open>replace\<close>. The \<^verbatim>\<open>catch\<close> block throws the error again. A handler
  returns its result and the next tick.
\<close>

definition executeModelCall :: "host \<Rightarrow> nat \<Rightarrow> bag \<Rightarrow> WorkflowStep \<Rightarrow> exn + jsval \<times> nat" where
  "executeModelCall h k b step =
     (case orElse (optGet (step_input step) ''prompt'') (JStr []) of
        JStr template \<Rightarrow>
          thenE (interpolateTemplate h b template) (\<lambda>prompt.
            if step_id step = ''query_refiner''
            then thenE (simulateQueryRefiner h b) (\<lambda>r. Inr (r, k))
            else if step_id step = ''disease_detection''
            then Inr (simulateDiseaseDetection h k)
            else if step_id step = ''allocation_agent''
            then thenE (simulateAllocationAgent h b) (\<lambda>r. Inr (r, k))
            else if step_id step = ''response_formatter''
            then thenE (simulateResponseFormatter h b) (\<lambda>r. Inr (JStr r, k))
            else Inl (Error (''Unknown model call: '' @ step_id step)))
      | _ \<Rightarrow> Inl (TypeError (typeErrorMessage h ''call replace'')))"

definition executeApiCall :: "host \<Rightarrow> nat \<Rightarrow> WorkflowStep \<Rightarrow> exn + jsval \<times> nat" where
  "executeApiCall h k step =
     (if step_id step = ''weather_api'' then Inr (getWeatherData h k step)
      else Inl (Error (''Unknown API call: '' @ step_id step)))"

definition executePythonCode :: "host \<Rightarrow> nat \<Rightarrow> WorkflowStep \<Rightarrow> exn + jsval \<times> nat" where
  "executePythonCode h k step =
     (if step_id step = ''soil_data''
      then (let (samples, k') = generateSoilData h k in Inr (JArr (map soilToJs samples), k'))
      else Inl (Error (''Unknown Python execution: '' @ step_id step)))"

definition executeStep :: "host \<Rightarrow> nat \<Rightarrow> bag \<Rightarrow> WorkflowStep \<Rightarrow> exn + jsval \<times> nat" where
  "executeStep h k b step =
     (if step_type step = ''model_call'' then executeModelCall h k b step
      else if step_type step = ''api_call'' then executeApiCall h k step
      else if step_type step = ''python'' then executePythonCode h k step
      else Inl (Error (''Unknown step type: '' @ step_type step)))"

section \<open>The workflow executor\<close>

text \<open>\<^verbatim>\<open>interface AgentInput\<close> and the object the caller passes.\<close>

record AgentInput =
  farmer_query :: string

definition inputsToJs :: "AgentInput \<Rightarrow> jsval" where
  "inputsToJs inputs = JObj [(''farmer_query'', JStr (farmer_query inputs))]"

text \<open>
  The state of a run: \<^verbatim>\<open>this.workflowResults\<close>, the tick, and the local \<^verbatim>\<open>results\<close>.
\<close>

type_synonym run_state = "bag \<times> nat \<times> AgentResponse"

definition emptyResponse :: AgentResponse where
  "emptyResponse = \<lparr>weather = None, soil = None, disease = None, allocation = None,
     final_answer = None, success = True, error = None\<rparr>"

text \<open>The \<^verbatim>\<open>try\<close> block of one step after the handler returned, and its \<^verbatim>\<open>catch\<close> block.\<close>

definition storeResult :: "WorkflowStep \<Rightarrow> jsval \<Rightarrow> AgentResponse \<Rightarrow> AgentResponse" where
  "storeResult step stepResult res =
     (if step_id step = ''weather_api'' then res\<lparr>weather := Some stepResult\<rparr>
      else if step_id step = ''soil_data'' then res\<lparr>soil := Some stepResult\<rparr>
      else if step_id step = ''disease_detection'' then res\<lparr>disease := Some stepResult\<rparr>
      else if step_id step = ''allocation_agent'' then res\<lparr>allocation := Some stepResult\<rparr>
      else if step_id step = ''response_formatter'' then res\<lparr>final_answer := Some stepResult\<rparr>
      else res)"

definition stepSucceeded :: "WorkflowStep \<Rightarrow> jsval \<Rightarrow> nat \<Rightarrow> bag \<Rightarrow> AgentResponse \<Rightarrow> run_state" where
  "stepSucceeded step stepResult k b res =
     (assign b (step_output step) stepResult, k, storeResult step stepResult res)"

definition stepFailed :: "host \<Rightarrow> WorkflowStep \<Rightarrow> nat \<Rightarrow> bag \<Rightarrow> AgentResponse \<Rightarrow> run_state" where
  "stepFailed h step k b res =
     (let fallbackResult = getFallbackResult h k b (step_id step)
      in (assign b (step_output step) fallbackResult, k + 1,
          if step_id step = ''response_formatter''
          then res\<lparr>final_answer := Some fallbackResult\<rparr> else res))"

text \<open>\<^verbatim>\<open>step.when && !this.evaluateCondition(step.when)\<close>.\<close>

definition skipped :: "bag \<Rightarrow> WorkflowStep \<Rightarrow> bool" where
  "skipped b step =
     (case step_when step of None \<Rightarrow> False
      | Some w \<Rightarrow> w \<noteq> [] \<and> \<not> evaluateCondition b w)"

text \<open>
  One turn of the loop. For an entry that is \<^verbatim>\<open>null\<close> the read of \<^verbatim>\<open>step.when\<close> throws
  inside the inner \<^verbatim>\<open>try\<close>, and the read of \<^verbatim>\<open>step.id\<close> throws again inside its \<^verbatim>\<open>catch\<close>:
  that exception leaves the loop.
\<close>

definition runStep :: "host \<Rightarrow> run_state \<Rightarrow> WorkflowStep option \<Rightarrow> exn + run_state" where
  "runStep h st entry =
     (case st of (b, k, res) \<Rightarrow>
        (case entry of
           None \<Rightarrow> Inl (TypeError (typeErrorMessage h ''read id''))
         | Some step \<Rightarrow>
             if skipped b step then Inr (b, k, res)
             else (case executeStep h k b step of
                     Inr (stepResult, k') \<Rightarrow> Inr (stepSucceeded step stepResult k' b res)
                   | Inl e \<Rightarrow> Inr (stepFailed h step k b res))))"

text \<open>
  The loop over the workflow: the state it reached, and the exception that left it, if
  one did.
\<close>

fun runWorkflow :: "host \<Rightarrow> run_state \<Rightarrow> WorkflowStep option list \<Rightarrow> run_state \<times> exn option" where
  "runWorkflow h st [] = (st, None)"
| "runWorkflow h st (entry # entries) =
     (case runStep h st entry of
        Inl e \<Rightarrow> (st, Some e)
      | Inr st' \<Rightarrow> runWorkflow h st' entries)"

text \<open>
  The outer \<^verbatim>\<open>try\<close> block of \<^verbatim>\<open>execute\<close>, for a configuration that is an object: a
  \<^verbatim>\<open>workflow\<close> that cannot be iterated throws before the first step.
\<close>

definition initialState :: "AgentInput \<Rightarrow> run_state" where
  "initialState inputs = (newBag (inputsToJs inputs), 0, emptyResponse)"

definition executeBody :: "host \<Rightarrow> AgentConfig \<Rightarrow> AgentInput \<Rightarrow> run_state \<times> exn option" where
  "executeBody h config inputs =
     (case workflow config of
        None \<Rightarrow> (initialState inputs, Some (TypeError (typeErrorMessage h ''iterate workflow'')))
      | Some entries \<Rightarrow> runWorkflow h (initialState inputs) entries)"

text \<open>
  The outer \<^verbatim>\<open>try\<close> block for any stored configuration: the read of
  \<^verbatim>\<open>this.config.workflow\<close> throws when the configuration is \<^verbatim>\<open>undefined\<close> or \<^verbatim>\<open>null\<close>.
\<close>

definition tryBlock :: "host \<Rightarrow> stored_config \<Rightarrow> AgentInput \<Rightarrow> run_state \<times> exn option" where
  "tryBlock h config inputs =
     (case config of
        ConfigUndefined \<Rightarrow>
          (initialState inputs, Some (TypeError (typeErrorMessage h ''read workflow of undefined'')))
      | ConfigNull \<Rightarrow>
          (initialState inputs, Some (TypeError (typeErrorMessage h ''read workflow of null'')))
      | ConfigObject c \<Rightarrow> executeBody h c inputs)"

text \<open>
  \<^verbatim>\<open>execute\<close>. \<open>Inr\<close> is the response the promise resolves to; \<open>Inl\<close> is an exception that
  reaches the caller (the promise rejects). The outer \<^verbatim>\<open>catch\<close> block builds its response
  with a call of \<^verbatim>\<open>getFallbackResult\<close>, and an exception of that call leaves \<^verbatim>\<open>execute\<close>.
\<close>

definition execute :: "host \<Rightarrow> stored_config \<Rightarrow> AgentInput \<Rightarrow> exn + AgentResponse" where
  "execute h config inputs =
     (case tryBlock h config inputs of
        ((b, k, res), None) \<Rightarrow> Inr res
      | ((b, k, res), Some e) \<Rightarrow>
          thenE (readFallbacks h config) (\<lambda>fallbacks.
            Inr \<lparr>weather = None, soil = None, disease = None, allocation = None,
                 final_answer = Some (getFallbackResult h k b ''response_formatter''),
                 success = False, error = Some (message e)\<rparr>))"

section \<open>Overlapping calls\<close>

text \<open>
  The module exports one agent, and \<^verbatim>\<open>workflowResults\<close> is a field of it: every call of
  \<^verbatim>\<open>execute\<close> on it reads and writes the same field. A call runs without interruption up
  to its next \<^verbatim>\<open>await\<close>, and goes on in a later turn when the awaited promise has settled;
  turns of other calls may lie in between. What the calls share is the bag and the tick.
  The configuration of the agent is an object here.
\<close>

type_synonym shared = "bag \<times> nat"

text \<open>
  A call is either suspended at \<^verbatim>\<open>await this.executeStep(step)\<close>, or it has returned. The
  handler of the awaited step has run when the call suspends (every read of the bag by a
  handler comes before the first \<^verbatim>\<open>await\<close> inside it), so the suspended call holds how the
  promise settles, the entries of the workflow still to come, and its local \<^verbatim>\<open>results\<close>.
\<close>

datatype call =
    Awaiting WorkflowStep "exn + jsval" "WorkflowStep option list" AgentResponse
  | Done AgentResponse

text \<open>The response of the outer \<^verbatim>\<open>catch\<close> block of \<^verbatim>\<open>execute\<close>.\<close>

definition failureResponse :: "host \<Rightarrow> shared \<Rightarrow> exn \<Rightarrow> AgentResponse" where
  "failureResponse h sh e =
     (case sh of (b, k) \<Rightarrow>
        \<lparr>weather = None, soil = None, disease = None, allocation = None,
         final_answer = Some (getFallbackResult h k b ''response_formatter''),
         success = False, error = Some (message e)\<rparr>)"

text \<open>
  \<open>advance\<close> runs the loop from its next entry up to the next \<^verbatim>\<open>await\<close> or to the end: a
  skipped step does not suspend the call. \<open>resume\<close> is the turn after the promise has
  settled: the rest of the \<^verbatim>\<open>try\<close> block or the \<^verbatim>\<open>catch\<close> block of the step, on the bag the
  field holds at that moment, and then the loop again. \<open>start\<close> is the first turn of a
  call: it puts a new bag into the field.
\<close>

fun advance :: "host \<Rightarrow> shared \<Rightarrow> WorkflowStep option list \<Rightarrow> AgentResponse \<Rightarrow> shared \<times> call" where
  "advance h sh [] res = (sh, Done res)"
| "advance h sh (None # entries) res =
     (sh, Done (failureResponse h sh (TypeError (typeErrorMessage h ''read id''))))"
| "advance h sh (Some step # entries) res =
     (case sh of (b, k) \<Rightarrow>
        if skipped b step then advance h sh entries res
        else (case executeStep h k b step of
                Inr (stepResult, k') \<Rightarrow> ((b, k'), Awaiting step (Inr stepResult) entries res)
              | Inl e \<Rightarrow> ((b, k), Awaiting step (Inl e) entries res)))"

definition resume :: "host \<Rightarrow> shared \<Rightarrow> call \<Rightarrow> shared \<times> call" where
  "resume h sh c =
     (case c of
        Done res \<Rightarrow> (sh, Done res)
      | Awaiting step outcome entries res \<Rightarrow>
          (case sh of (b, k) \<Rightarrow>
             (case (case outcome of
                      Inr stepResult \<Rightarrow> stepSucceeded step stepResult k b res
                    | Inl e \<Rightarrow> stepFailed h step k b res) of
                (b', k', res') \<Rightarrow> advance h (b', k') entries res')))"

definition start :: "host \<Rightarrow> shared \<Rightarrow> AgentConfig \<Rightarrow> AgentInput \<Rightarrow> shared \<times> call" where
  "start h sh config inputs =
     (case sh of (b, k) \<Rightarrow>
        (case workflow config of
           None \<Rightarrow> ((newBag (inputsToJs inputs), k),
                     Done (failureResponse h (newBag (inputsToJs inputs), k)
                             (TypeError (typeErrorMessage h ''iterate workflow''))))
         | Some entries \<Rightarrow> advance h (newBag (inputsToJs inputs), k) entries emptyResponse))"

text \<open>
  \<open>finish\<close> lets one call run to its end with no turn of another call in between; each
  turn leaves fewer entries to come.
\<close>

fun remaining :: "call \<Rightarrow> nat" where
  "remaining (Done res) = 0"
| "remaining (Awaiting step outcome entries res) = Suc (length entries)"

lemma advance_remaining: "remaining (snd (advance h sh entries res)) \<le> length entries"
proof (induction entries arbitrary: sh)
  case Nil
  show ?case by simp
next
  case (Cons entry entries)
  show ?case
  proof (cases entry)
    case None
    then show ?thesis by simp
  next
    case (Some step)
    obtain b k where sh: "sh = (b, k)" by (cases sh)
    show ?thesis
      using Cons.IH [of sh]
      by (auto simp: Some sh split: sum.splits)
  qed
qed

lemma resume_remaining:
  "remaining (snd (resume h sh (Awaiting step outcome entries res))) \<le> length entries"
  by (auto simp: resume_def advance_remaining split: prod.splits sum.splits)

function finish :: "host \<Rightarrow> shared \<Rightarrow> call \<Rightarrow> AgentResponse" where
  "finish h sh (Done res) = res"
| "finish h sh (Awaiting step outcome entries res) =
     (case resume h sh (Awaiting step outcome entries res) of (sh', c) \<Rightarrow> finish h sh' c)"
  by pat_completeness auto
termination
proof (relation "measure (\<lambda>(h, sh, c). remaining c)", goal_cases)
  case 1
  show ?case by simp
next
  case (2 h sh step outcome entries res sh' c)
  then have "c = snd (resume h sh (Awaiting step outcome entries res))"
    by (metis snd_conv)
  then have "remaining c \<le> length entries"
    by (simp add: resume_remaining)
  then show ?case by simp
qed

text \<open>
  A schedule is a list of turns: a new call with a number and an input, or the next turn
  of the call with a number.
\<close>

datatype turn = Start nat AgentInput | Resume nat

fun runTurns :: "host \<Rightarrow> AgentConfig \<Rightarrow> shared \<times> (nat \<rightharpoonup> call) \<Rightarrow> turn list
    \<Rightarrow> shared \<times> (nat \<rightharpoonup> call)" where
  "runTurns h config st [] = st"
| "runTurns h config (sh, calls) (Start i inputs # turns) =
     (case start h sh config inputs of
        (sh', c) \<Rightarrow> runTurns h config (sh', calls(i \<mapsto> c)) turns)"
| "runTurns h config (sh, calls) (Resume i # turns) =
     (case calls i of
        None \<Rightarrow> runTurns h config (sh, calls) turns
      | Some c \<Rightarrow> (case resume h sh c of
                    (sh', c') \<Rightarrow> runTurns h config (sh', calls(i \<mapsto> c')) turns))"

text \<open>
  The response of a call that has returned, and the \<^verbatim>\<open>request\<close> of the allocation plan in a
  response.
\<close>

definition responseOf :: "call option \<Rightarrow> AgentResponse option" where
  "responseOf c = (case c of Some (Done res) \<Rightarrow> Some res | _ \<Rightarrow> None)"

definition requestOf :: "AgentResponse \<Rightarrow> jsval" where
  "requestOf res = (case allocation res of Some plan \<Rightarrow> optGet plan ''request'' | None \<Rightarrow> JUndefined)"

section \<open>What the two regular expressions match\<close>

text \<open>
  \<open>isGuard g variable searchTerm\<close>: the text \<open>g\<close> is a match of the guard expression
  with the two groups: an identifier of word characters, white space, the word
  \<^verbatim>\<open>contains\<close> in any mix of cases, white space, and a literal without a quote between two
  single quotes.
\<close>

definition isGuard :: "string \<Rightarrow> string \<Rightarrow> string \<Rightarrow> bool" where
  "isGuard g variable searchTerm \<longleftrightarrow>
     (\<exists>ws1 kw ws2.
        g = variable @ ws1 @ kw @ ws2 @ [CHR 0x27] @ searchTerm @ [CHR 0x27]
        \<and> variable \<noteq> [] \<and> list_all isWord variable
        \<and> ws1 \<noteq> [] \<and> list_all isSpace ws1
        \<and> toLowerCase kw = ''contains''
        \<and> ws2 \<noteq> [] \<and> list_all isSpace ws2
        \<and> searchTerm \<noteq> [] \<and> CHR 0x27 \<notin> set searchTerm)"

text \<open>
  A guard of the grammar \<^verbatim>\<open>identifier contains 'literal'\<close> is a text \<open>g\<close> with
  \<open>isGuard g variable searchTerm\<close> for some identifier and literal. A longer text can hold
  such guards: \<open>guardStartsAt c n variable searchTerm\<close> says that one starts after the
  first \<open>n\<close> characters of \<open>c\<close>, and \<open>firstGuard c variable searchTerm\<close> that the leftmost
  guard held in \<open>c\<close> has this identifier and this literal. \<open>holdsGuard\<close> adds that \<open>c\<close>
  holds the word \<^verbatim>\<open>contains\<close> in small letters somewhere.
\<close>

definition guardStartsAt :: "string \<Rightarrow> nat \<Rightarrow> string \<Rightarrow> string \<Rightarrow> bool" where
  "guardStartsAt c n variable searchTerm \<longleftrightarrow>
     (\<exists>pre g post. c = pre @ g @ post \<and> length pre = n \<and> isGuard g variable searchTerm)"

definition firstGuard :: "string \<Rightarrow> string \<Rightarrow> string \<Rightarrow> bool" where
  "firstGuard c variable searchTerm \<longleftrightarrow>
     (\<exists>n. guardStartsAt c n variable searchTerm
          \<and> (\<forall>m x l. guardStartsAt c m x l \<longrightarrow> n \<le> m))"

definition inGrammar :: "string \<Rightarrow> bool" where
  "inGrammar g \<longleftrightarrow> (\<exists>variable searchTerm. isGuard g variable searchTerm)"

definition holdsGuard :: "string \<Rightarrow> string \<Rightarrow> string \<Rightarrow> bool" where
  "holdsGuard c variable searchTerm \<longleftrightarrow>
     (\<exists>a z. c = a @ ''contains'' @ z) \<and> firstGuard c variable searchTerm"

text \<open>
  \<open>handlersFail h st steps\<close>: in the run of the steps from the state \<open>st\<close>, the handler of
  every step that is not skipped throws, in the state in which the loop calls it.
\<close>

fun handlersFail :: "host \<Rightarrow> run_state \<Rightarrow> WorkflowStep list \<Rightarrow> bool" where
  "handlersFail h st [] = True"
| "handlersFail h (b, k, res) (step # steps) =
     (if skipped b step then handlersFail h (b, k, res) steps
      else isl (executeStep h k b step) \<and> handlersFail h (stepFailed h step k b res) steps)"

text \<open>
  \<open>isPlaceholder m path\<close>: the text \<open>m\<close> is a match of the placeholder expression with the
  group \<open>path\<close>: two opening braces, a non-empty path without a closing brace, two
  closing braces.
\<close>

definition isPlaceholder :: "string \<Rightarrow> string \<Rightarrow> bool" where
  "isPlaceholder m path \<longleftrightarrow> m = ''{{'' @ path @ ''}}'' \<and> path \<noteq> [] \<and> CHR ''}'' \<notin> set path"

section \<open>Properties of the interpolator\<close>

lemma placeholderAt_iff:
  "placeholderAt s = Some (path, r) \<longleftrightarrow>
     s = ''{{'' @ path @ ''}}'' @ r \<and> path \<noteq> [] \<and> CHR ''}'' \<notin> set path"
proof
  assume a: "placeholderAt s = Some (path, r)"
  let ?d = "drop 2 s"
  let ?q = "dropWhile (\<lambda>c. c \<noteq> CHR ''}'') ?d"
  from a have t: "take 2 s = ''{{''" and p: "path = takeWhile (\<lambda>c. c \<noteq> CHR ''}'') ?d"
    and ne: "path \<noteq> []" and q: "take 2 ?q = ''}}''" and r: "r = drop 2 ?q"
    by (auto simp: placeholderAt_def Let_def split: if_splits)
  have "s = take 2 s @ ?d" by simp
  also have "?d = path @ ?q" by (simp add: p)
  also have "?q = take 2 ?q @ drop 2 ?q" by simp
  finally have "s = ''{{'' @ path @ ''}}'' @ r" by (simp only: t q r)
  moreover have "CHR ''}'' \<notin> set path"
    unfolding p by (auto dest: set_takeWhileD)
  ultimately show "s = ''{{'' @ path @ ''}}'' @ r \<and> path \<noteq> [] \<and> CHR ''}'' \<notin> set path"
    using ne by blast
next
  assume a: "s = ''{{'' @ path @ ''}}'' @ r \<and> path \<noteq> [] \<and> CHR ''}'' \<notin> set path"
  then have t2: "take 2 s = ''{{''" and d: "drop 2 s = path @ ''}}'' @ r" and ne: "path \<noteq> []"
    by simp_all
  have tw: "takeWhile (\<lambda>c. c \<noteq> CHR ''}'') (path @ ''}}'' @ r) = path"
    using a by (subst takeWhile_append2) auto
  have dw: "dropWhile (\<lambda>c. c \<noteq> CHR ''}'') (path @ ''}}'' @ r) = ''}}'' @ r"
    using a by (subst dropWhile_append2) auto
  show "placeholderAt s = Some (path, r)"
    unfolding placeholderAt_def Let_def t2 d tw dw using ne by simp
qed

lemma thenE_Inr: "thenE m f = Inr x \<longleftrightarrow> (\<exists>y. m = Inr y \<and> f y = Inr x)"
  by (cases m) (simp_all add: thenE_def)

lemma thenE_simps [simp]: "thenE (Inl e) f = Inl e" "thenE (Inr y) f = f y"
  by (simp_all add: thenE_def)

lemma appendE_simps [simp]:
  "appendE (Inl e) b = Inl e"
  "appendE (Inr x) (Inl e) = Inl e"
  "appendE (Inr x) (Inr y) = Inr (x @ y)"
  by (simp_all add: appendE_def)

lemma appendE_Nil [simp]: "appendE (Inr []) b = b"
  by (cases b) simp_all

lemma appendE_assoc: "appendE (Inr x) (appendE (Inr y) b) = appendE (Inr (x @ y)) b"
  by (cases b) simp_all

lemma replacePlaceholders_id:
  "(\<And>pre s'. t = pre @ s' \<Longrightarrow> placeholderAt s' = None) \<Longrightarrow> replacePlaceholders f t = Inr t"
proof (induction t)
  case Nil
  show ?case by simp
next
  case (Cons c cs)
  have here: "placeholderAt (c # cs) = None"
    using Cons.prems [of "[]" "c # cs"] by simp
  have "replacePlaceholders f cs = Inr cs"
  proof (rule Cons.IH)
    fix pre s' assume "cs = pre @ s'"
    then have "c # cs = (c # pre) @ s'" by simp
    then show "placeholderAt s' = None" by (rule Cons.prems)
  qed
  with here show ?case by simp
qed

lemma replacePlaceholders_first:
  assumes "\<And>p1 s'. pre = p1 @ s' \<Longrightarrow> s' \<noteq> [] \<Longrightarrow> placeholderAt (s' @ rest) = None"
  shows "replacePlaceholders f (pre @ rest) = appendE (Inr pre) (replacePlaceholders f rest)"
  using assms
proof (induction pre)
  case Nil
  show ?case by simp
next
  case (Cons c cs)
  have here: "placeholderAt (c # cs @ rest) = None"
    using Cons.prems [of "[]" "c # cs"] by simp
  have "replacePlaceholders f (cs @ rest) = appendE (Inr cs) (replacePlaceholders f rest)"
  proof (rule Cons.IH)
    fix p1 s' assume "cs = p1 @ s'" "s' \<noteq> []"
    then have "c # cs = (c # p1) @ s'" by simp
    then show "placeholderAt (s' @ rest) = None" using \<open>s' \<noteq> []\<close> by (rule Cons.prems)
  qed
  with here show ?case by (simp add: appendE_assoc)
qed

lemma JSON_stringify_None: "JSON_stringify h v = None \<longleftrightarrow> v = JUndefined"
  by (cases v) simp_all

lemma natToString_nonempty: "natToString n \<noteq> []"
  by (subst natToString.simps) simp

lemma walk_Inl [simp]: "walk h (Inl e) keys = Inl e"
  by (induction keys) simp_all

lemma walk_undefined [simp]: "walk h (Inr (Data JUndefined)) keys = Inr (Data JUndefined)"
  by (induction keys) (simp_all add: readReached_def readData_def)

lemma walk_null [simp]: "walk h (Inr (Data JNull)) (key # keys) = Inr (Data JUndefined)"
  by (simp add: readReached_def readData_def)

lemma walk_append: "walk h r (keys @ keys2) = walk h (walk h r keys) keys2"
  by (induction keys arbitrary: r) simp_all

lemma resolvePath_snoc:
  "keys \<noteq> [] \<Longrightarrow> resolvePath h b (keys @ keys2) = walk h (resolvePath h b keys) keys2"
  by (cases keys) (simp_all add: walk_append)

lemma resolvePath_undefined_step:
  "keys \<noteq> [] \<Longrightarrow> resolvePath h b keys = Inr (Data JUndefined)
     \<Longrightarrow> resolvePath h b (keys @ keys2) = Inr (Data JUndefined)"
  by (simp add: resolvePath_snoc)

lemma placeholderAt_Some_iff:
  "placeholderAt s = Some (path, r) \<longleftrightarrow> (\<exists>m. s = m @ r \<and> isPlaceholder m path)"
  by (auto simp: placeholderAt_iff isPlaceholder_def)

lemma placeholderAt_NoneI:
  "\<not> (\<exists>m path r. s = m @ r \<and> isPlaceholder m path) \<Longrightarrow> placeholderAt s = None"
proof (cases "placeholderAt s")
  case None
  then show ?thesis .
next
  case (Some pr)
  obtain path r where "pr = (path, r)" by (cases pr)
  with Some have "\<exists>m. s = m @ r \<and> isPlaceholder m path"
    by (simp add: placeholderAt_Some_iff)
  moreover assume "\<not> (\<exists>m path r. s = m @ r \<and> isPlaceholder m path)"
  ultimately show ?thesis by blast
qed

lemma hasPlaceholder_code:
  "(\<exists>pre m path post. t = pre @ m @ post \<and> isPlaceholder m path)
     \<longleftrightarrow> list_ex (\<lambda>s. placeholderAt s \<noteq> None) (suffixes t)"
proof
  assume "\<exists>pre m path post. t = pre @ m @ post \<and> isPlaceholder m path"
  then obtain pre m path post where t: "t = pre @ m @ post" and m: "isPlaceholder m path" by blast
  have "placeholderAt (m @ post) = Some (path, post)"
    using m by (auto simp: placeholderAt_Some_iff)
  moreover have "m @ post \<in> set (suffixes t)"
    by (simp add: t suffix_def)
  ultimately show "list_ex (\<lambda>s. placeholderAt s \<noteq> None) (suffixes t)"
    unfolding list_ex_iff by force
next
  assume "list_ex (\<lambda>s. placeholderAt s \<noteq> None) (suffixes t)"
  then obtain s path r where "suffix s t" "placeholderAt s = Some (path, r)"
    unfolding list_ex_iff by auto
  then obtain pre m where "t = pre @ s" "s = m @ r" "isPlaceholder m path"
    by (auto simp: suffix_def placeholderAt_Some_iff)
  then have "t = pre @ m @ r \<and> isPlaceholder m path" by simp
  then show "\<exists>pre m path post. t = pre @ m @ post \<and> isPlaceholder m path" by blast
qed

lemma no_brace_no_placeholder:
  assumes "CHR ''{'' \<notin> set pre"
  shows "\<not> (\<exists>p1 m1 path1 post1. length p1 < length pre \<and> pre @ rest = p1 @ m1 @ post1
            \<and> isPlaceholder m1 path1)"
proof
  assume "\<exists>p1 m1 path1 post1. length p1 < length pre \<and> pre @ rest = p1 @ m1 @ post1
            \<and> isPlaceholder m1 path1"
  then obtain p1 m1 path1 post1 where l: "length p1 < length pre"
    and e: "pre @ rest = p1 @ m1 @ post1" and m: "isPlaceholder m1 path1" by blast
  from m obtain m' where m1: "m1 = CHR ''{'' # m'" by (auto simp: isPlaceholder_def)
  have "(pre @ rest) ! length p1 = CHR ''{''"
    unfolding e m1 by (simp add: nth_append)
  with l have "pre ! length p1 = CHR ''{''" by (simp add: nth_append)
  with l have "CHR ''{'' \<in> set pre" by (metis nth_mem)
  with assms show False by blast
qed

lemma digitChar_digit: "d < 10 \<Longrightarrow> digitChar d \<in> set ''0123456789''"
  unfolding digitChar_def by (rule nth_mem) simp

lemma digitValue_digitChar: "d < 10 \<Longrightarrow> digitValue (digitChar d) = d"
proof -
  assume "d < 10"
  then have "d \<in> {0, 1, 2, 3, 4, 5, 6, 7, 8, 9}" by auto
  then show ?thesis
    by (auto simp: digitValue_def digitChar_def upt_rec)
qed

lemma digitChar_zero: "d < 10 \<Longrightarrow> digitChar d = CHR ''0'' \<longleftrightarrow> d = 0"
proof -
  assume "d < 10"
  then have "d \<in> {0, 1, 2, 3, 4, 5, 6, 7, 8, 9}" by auto
  then show ?thesis
    by (auto simp: digitChar_def)
qed

lemma natToString_digits: "list_all (\<lambda>c. c \<in> set ''0123456789'') (natToString n)"
proof (induction n rule: natToString.induct)
  case (1 n)
  show ?case
  proof (cases "n < 10")
    case True
    then show ?thesis
      using digitChar_digit [of n] by (subst natToString.simps) simp
  next
    case False
    then show ?thesis
      using 1 digitChar_digit [of "n mod 10"] by (subst natToString.simps) simp
  qed
qed

lemma natToString_hd: "0 < n \<Longrightarrow> hd (natToString n) \<noteq> CHR ''0''"
proof (induction n rule: natToString.induct)
  case (1 n)
  show ?case
  proof (cases "n < 10")
    case True
    then show ?thesis
      using 1(2) digitChar_zero [of n] by (subst natToString.simps) simp
  next
    case False
    then have "0 < n div 10" by simp
    with False 1 show ?thesis
      by (subst natToString.simps) (simp add: natToString_nonempty)
  qed
qed

lemma natToString_value: "foldl (\<lambda>n c. 10 * n + digitValue c) 0 (natToString n) = n"
proof (induction n rule: natToString.induct)
  case (1 n)
  show ?case
  proof (cases "n < 10")
    case True
    then show ?thesis
      by (subst natToString.simps) (simp add: digitValue_digitChar)
  next
    case False
    then show ?thesis
      using 1 by (subst natToString.simps) (simp add: digitValue_digitChar)
  qed
qed

lemma natToString_0: "natToString 0 = ''0''"
  by (simp add: natToString.simps digitChar_def)

lemma parseIndex_natToString: "parseIndex (natToString n) = Some n"
proof (cases "n = 0")
  case True
  then show ?thesis
    by (simp add: natToString_0 parseIndex_def digitValue_def upt_rec)
next
  case False
  then have "hd (natToString n) \<noteq> CHR ''0''" by (simp add: natToString_hd)
  then have c: "natToString n \<noteq> [] \<and> list_all (\<lambda>c. c \<in> set ''0123456789'') (natToString n)
      \<and> (natToString n = ''0'' \<or> hd (natToString n) \<noteq> CHR ''0'')"
    using natToString_nonempty natToString_digits by blast
  show ?thesis
    unfolding parseIndex_def by (simp only: c if_True natToString_value simp_thms)
qed

lemma natToString_not_length: "natToString n \<noteq> ''length''"
proof
  assume "natToString n = ''length''"
  with natToString_digits [of n] show False by simp
qed

lemma getProp_index: "i < length xs \<Longrightarrow> getProp (JArr xs) (natToString i) = xs ! i"
  by (simp add: parseIndex_natToString natToString_not_length)

lemma hasOwn_index: "i < length xs \<Longrightarrow> hasOwn (JArr xs) (natToString i)"
  by (simp add: parseIndex_natToString)

lemma substitute_cases:
  "substitute h b m path =
     (case resolvePath h b (splitOn (CHR ''.'') (trim path)) of
        Inl e \<Rightarrow> Inl e
      | Inr (Data v) \<Rightarrow> (case v of JStr s \<Rightarrow> Inr s | _ \<Rightarrow> Inr (orMatch m (JSON_stringify h v)))
      | Inr (Engine n) \<Rightarrow> (case engineJSON h n of Inl e \<Rightarrow> Inl e | Inr j \<Rightarrow> Inr (orMatch m j)))"
  by (simp add: substitute_def split: sum.splits reached.splits jsval.splits)

lemma interpolate_first:
  assumes "isPlaceholder m path"
    and "\<not> (\<exists>p1 m1 path1 post1. length p1 < length pre \<and> pre @ m @ post = p1 @ m1 @ post1
            \<and> isPlaceholder m1 path1)"
  shows "interpolateTemplate h b (pre @ m @ post)
           = appendE (Inr pre) (appendE (substitute h b m path) (interpolateTemplate h b post))"
proof -
  have before: "placeholderAt (s' @ m @ post) = None" if "pre = p1 @ s'" "s' \<noteq> []" for p1 s'
  proof (rule placeholderAt_NoneI, rule notI)
    assume "\<exists>m1 path1 r. s' @ m @ post = m1 @ r \<and> isPlaceholder m1 path1"
    then obtain m1 path1 r where "s' @ m @ post = m1 @ r" "isPlaceholder m1 path1" by blast
    with that have "length p1 < length pre \<and> pre @ m @ post = p1 @ m1 @ r \<and> isPlaceholder m1 path1"
      by simp
    with assms(2) show False by blast
  qed
  have here: "placeholderAt (m @ post) = Some (path, post)"
    using assms(1) by (auto simp: placeholderAt_Some_iff)
  have m: "m = ''{{'' @ path @ ''}}''"
    using assms(1) by (simp add: isPlaceholder_def)
  then obtain c cs where mc: "m @ post = c # cs" by simp
  have "replacePlaceholders f (m @ post) = appendE (f m path) (replacePlaceholders f post)" for f
    unfolding mc using here [unfolded mc] by (simp add: m)
  moreover have "replacePlaceholders f (pre @ m @ post)
      = appendE (Inr pre) (replacePlaceholders f (m @ post))" for f
    using before by (rule replacePlaceholders_first)
  ultimately show ?thesis
    by (simp add: interpolateTemplate_def)
qed

lemma resolvePath_last:
  "keys \<noteq> [] \<Longrightarrow> resolvePath h b (keys @ [key])
     = (case resolvePath h b keys of Inl e \<Rightarrow> Inl e | Inr r \<Rightarrow> readReached h r key)"
  by (simp add: resolvePath_snoc)

section \<open>Properties of the condition evaluator\<close>

lemma isSpace_not_isWord: "isSpace c \<Longrightarrow> \<not> isWord c"
  by (auto simp: isSpace_def isWord_def)

lemma quote_not_isSpace: "\<not> isSpace (CHR 0x27)"
  by (simp add: isSpace_def)

lemma lowerChar_c: "lowerChar c = CHR ''c'' \<Longrightarrow> \<not> isSpace c"
  by (auto simp: isSpace_def lowerChar_def upperLetters_def lowerLetters_def)

lemma takeWhile_run: "list_all P xs \<Longrightarrow> (ys = [] \<or> \<not> P (hd ys)) \<Longrightarrow> takeWhile P (xs @ ys) = xs"
  by (cases ys) (auto simp: list_all_iff takeWhile_append2)

lemma dropWhile_run: "list_all P xs \<Longrightarrow> (ys = [] \<or> \<not> P (hd ys)) \<Longrightarrow> dropWhile P (xs @ ys) = ys"
  by (cases ys) (auto simp: list_all_iff dropWhile_append2)

lemma guardAt_isGuard:
  assumes "isGuard g x lit"
  shows "guardAt (g @ rest) = Some (x, lit)"
proof -
  from assms obtain ws1 kw ws2 where
    g: "g = x @ ws1 @ kw @ ws2 @ [CHR 0x27] @ lit @ [CHR 0x27]"
    and x: "x \<noteq> []" "list_all isWord x"
    and ws1: "ws1 \<noteq> []" "list_all isSpace ws1"
    and kw: "toLowerCase kw = ''contains''"
    and ws2: "ws2 \<noteq> []" "list_all isSpace ws2"
    and lit: "lit \<noteq> []" "CHR 0x27 \<notin> set lit"
    unfolding isGuard_def by blast
  let ?a5 = "CHR 0x27 # rest"
  let ?a4 = "CHR 0x27 # lit @ ?a5"
  let ?a3 = "ws2 @ ?a4"
  let ?a2 = "kw @ ?a3"
  let ?a1 = "ws1 @ ?a2"
  have s: "g @ rest = x @ ?a1" by (simp add: g)
  have "length (toLowerCase kw) = length ''contains''"
    by (simp only: kw)
  then have len: "length kw = 8"
    by (simp add: toLowerCase_def)
  have kw0: "kw \<noteq> []" "\<not> isSpace (hd kw)"
    using kw lowerChar_c [of "hd kw"] by (cases kw; simp add: toLowerCase_def)+
  have hd1: "\<not> isWord (hd ?a1)"
    using ws1 by (cases ws1) (auto simp: isSpace_not_isWord)
  have v: "takeWhile isWord (x @ ?a1) = x" "dropWhile isWord (x @ ?a1) = ?a1"
    using x hd1 by (simp_all add: takeWhile_run dropWhile_run)
  have sp1: "takeWhile isSpace ?a1 = ws1" "dropWhile isSpace ?a1 = ?a2"
    using ws1 kw0 by (simp_all add: takeWhile_run dropWhile_run)
  have k: "take 8 ?a2 = kw" "drop 8 ?a2 = ?a3"
    using len by simp_all
  have sp2: "takeWhile isSpace ?a3 = ws2" "dropWhile isSpace ?a3 = ?a4"
    using ws2 quote_not_isSpace by (simp_all add: takeWhile_run dropWhile_run)
  have l: "takeWhile (\<lambda>c. c \<noteq> CHR 0x27) (lit @ ?a5) = lit"
          "dropWhile (\<lambda>c. c \<noteq> CHR 0x27) (lit @ ?a5) = ?a5"
    using lit by (subst takeWhile_append2 dropWhile_append2; auto)+
  show ?thesis
    unfolding guardAt_def Let_def s v sp1 k sp2
    using x ws1 ws2 lit kw l by simp
qed

lemma guardAt_sound:
  assumes "guardAt s = Some (x, lit)"
  shows "\<exists>g rest. s = g @ rest \<and> isGuard g x lit"
proof -
  define r1 where "r1 = dropWhile isWord s"
  define r2 where "r2 = dropWhile isSpace r1"
  define r3 where "r3 = drop 8 r2"
  define r4 where "r4 = dropWhile isSpace r3"
  define r5 where "r5 = dropWhile (\<lambda>c. c \<noteq> CHR 0x27) (drop 1 r4)"
  from assms have x: "x = takeWhile isWord s" "x \<noteq> []"
    and ws1: "takeWhile isSpace r1 \<noteq> []"
    and kw: "toLowerCase (take 8 r2) = ''contains''"
    and ws2: "takeWhile isSpace r3 \<noteq> []"
    and q4: "take 1 r4 = [CHR 0x27]"
    and lit: "lit = takeWhile (\<lambda>c. c \<noteq> CHR 0x27) (drop 1 r4)" "lit \<noteq> []"
    and q5: "take 1 r5 = [CHR 0x27]"
    unfolding guardAt_def Let_def r1_def r2_def r3_def r4_def r5_def
    by (auto split: if_splits)
  have "s = x @ r1" by (simp add: x r1_def)
  also have "r1 = takeWhile isSpace r1 @ r2" by (simp add: r2_def)
  also have "r2 = take 8 r2 @ r3" by (simp add: r3_def)
  also have "r3 = takeWhile isSpace r3 @ r4" by (simp add: r4_def)
  also have "r4 = take 1 r4 @ drop 1 r4" by simp
  also have "drop 1 r4 = lit @ r5" by (simp add: lit r5_def)
  also have "r5 = take 1 r5 @ drop 1 r5" by simp
  finally have s: "s = (x @ takeWhile isSpace r1 @ take 8 r2 @ takeWhile isSpace r3
      @ [CHR 0x27] @ lit @ [CHR 0x27]) @ drop 1 r5"
    by (simp only: q4 q5 append_assoc)
  have "list_all isWord x" "list_all isSpace (takeWhile isSpace r1)"
    "list_all isSpace (takeWhile isSpace r3)" "CHR 0x27 \<notin> set lit"
    unfolding x lit list_all_iff by (auto dest: set_takeWhileD)
  then have "isGuard (x @ takeWhile isSpace r1 @ take 8 r2 @ takeWhile isSpace r3
      @ [CHR 0x27] @ lit @ [CHR 0x27]) x lit"
    unfolding isGuard_def using x ws1 kw ws2 lit by blast
  with s show ?thesis by blast
qed

lemma guardSearch_sound:
  "guardSearch c = Some (x, lit) \<Longrightarrow> \<exists>pre g post. c = pre @ g @ post \<and> isGuard g x lit"
proof (induction c)
  case Nil
  then show ?case by simp
next
  case (Cons a c)
  show ?case
  proof (cases "guardAt (a # c)")
    case None
    with Cons.prems have "guardSearch c = Some (x, lit)" by simp
    then obtain pre g post where "c = pre @ g @ post" "isGuard g x lit"
      using Cons.IH by blast
    then have "a # c = (a # pre) @ g @ post \<and> isGuard g x lit" by simp
    then show ?thesis by blast
  next
    case (Some m)
    with Cons.prems have "guardAt (a # c) = Some (x, lit)" by simp
    then obtain g rest where "a # c = [] @ g @ rest \<and> isGuard g x lit"
      using guardAt_sound by fastforce
    then show ?thesis by blast
  qed
qed

lemma guardSearch_complete:
  "isGuard g x lit \<Longrightarrow> \<exists>y lit'. guardSearch (pre @ g @ post) = Some (y, lit')"
proof (induction pre)
  case Nil
  then have ne: "g \<noteq> []" by (auto simp: isGuard_def)
  from Nil have "guardAt (g @ post) = Some (x, lit)" by (rule guardAt_isGuard)
  with ne show ?case by (cases g) auto
next
  case (Cons a pre)
  then show ?case by (cases "guardAt (a # pre @ g @ post)") auto
qed

lemma guardSearch_isGuard:
  assumes "isGuard g x lit"
  shows "guardSearch (g @ post) = Some (x, lit)"
proof -
  from assms have ne: "g \<noteq> []" by (auto simp: isGuard_def)
  from assms have "guardAt (g @ post) = Some (x, lit)" by (rule guardAt_isGuard)
  with ne show ?thesis by (cases g) auto
qed

lemma includesStr_append: "includesStr (a @ sub @ b) sub"
proof (induction a)
  case Nil
  show ?case
  proof (cases "sub @ b")
    case Nil
    then show ?thesis by simp
  next
    case (Cons c cs)
    have "prefix sub (sub @ b)" by simp
    then show ?thesis by (simp add: Cons)
  qed
next
  case (Cons c a)
  then show ?case by simp
qed

lemma includesStr_iff: "includesStr s sub \<longleftrightarrow> (\<exists>a b. s = a @ sub @ b)"
proof
  show "includesStr s sub \<Longrightarrow> \<exists>a b. s = a @ sub @ b"
  proof (induction s)
    case Nil
    then show ?case by simp
  next
    case (Cons c s)
    show ?case
    proof (cases "prefix sub (c # s)")
      case True
      then obtain b where "c # s = [] @ sub @ b" by (auto simp: prefix_def)
      then show ?thesis by blast
    next
      case False
      with Cons.prems have "includesStr s sub" by simp
      then obtain a b where "s = a @ sub @ b" using Cons.IH by blast
      then have "c # s = (c # a) @ sub @ b" by simp
      then show ?thesis by blast
    qed
  qed
next
  show "\<exists>a b. s = a @ sub @ b \<Longrightarrow> includesStr s sub"
    using includesStr_append by blast
qed

lemma guardAt_Nil [simp]: "guardAt [] = None"
  by (simp add: guardAt_def)

lemma guardAt_iff:
  "guardAt s = Some (x, lit) \<longleftrightarrow> (\<exists>g post. s = g @ post \<and> isGuard g x lit)"
  using guardAt_sound guardAt_isGuard by blast

lemma guardStartsAt_iff:
  "guardStartsAt c n x lit \<longleftrightarrow> n < length c \<and> guardAt (drop n c) = Some (x, lit)"
proof
  assume "guardStartsAt c n x lit"
  then obtain pre g post where c: "c = pre @ g @ post" and n: "length pre = n"
    and g: "isGuard g x lit"
    unfolding guardStartsAt_def by blast
  from g have "g \<noteq> []" by (auto simp: isGuard_def)
  then have "n < length c" using c n by (cases g) auto
  moreover have "drop n c = g @ post" using c n by simp
  then have "guardAt (drop n c) = Some (x, lit)" using g by (simp add: guardAt_isGuard)
  ultimately show "n < length c \<and> guardAt (drop n c) = Some (x, lit)" by blast
next
  assume a: "n < length c \<and> guardAt (drop n c) = Some (x, lit)"
  then obtain g post where d: "drop n c = g @ post" and g: "isGuard g x lit"
    using guardAt_sound by blast
  have "c = take n c @ g @ post" using d by (metis append_take_drop_id)
  moreover have "length (take n c) = n" using a by simp
  ultimately show "guardStartsAt c n x lit"
    unfolding guardStartsAt_def using g by blast
qed

lemma guardSearch_Some_iff:
  "guardSearch c = Some p \<longleftrightarrow>
     (\<exists>n. n < length c \<and> guardAt (drop n c) = Some p \<and> (\<forall>m<n. guardAt (drop m c) = None))"
proof (induction c)
  case Nil
  show ?case by simp
next
  case (Cons a c)
  show ?case
  proof (cases "guardAt (a # c)")
    case (Some q)
    have "(\<exists>n. n < length (a # c) \<and> guardAt (drop n (a # c)) = Some p
            \<and> (\<forall>m<n. guardAt (drop m (a # c)) = None)) \<longleftrightarrow> q = p"
    proof
      assume "\<exists>n. n < length (a # c) \<and> guardAt (drop n (a # c)) = Some p
            \<and> (\<forall>m<n. guardAt (drop m (a # c)) = None)"
      then obtain n where n: "guardAt (drop n (a # c)) = Some p"
        "\<forall>m<n. guardAt (drop m (a # c)) = None" by blast
      show "q = p"
      proof (cases n)
        case 0
        with n Some show ?thesis by simp
      next
        case (Suc n')
        with n(2) have "guardAt (drop 0 (a # c)) = None" by blast
        with Some show ?thesis by simp
      qed
    next
      assume "q = p"
      with Some have "0 < length (a # c) \<and> guardAt (drop 0 (a # c)) = Some p
          \<and> (\<forall>m<0. guardAt (drop m (a # c)) = None)" by simp
      then show "\<exists>n. n < length (a # c) \<and> guardAt (drop n (a # c)) = Some p
            \<and> (\<forall>m<n. guardAt (drop m (a # c)) = None)" by blast
    qed
    with Some show ?thesis by simp
  next
    case None
    have "(\<exists>n. n < length (a # c) \<and> guardAt (drop n (a # c)) = Some p
            \<and> (\<forall>m<n. guardAt (drop m (a # c)) = None))
        \<longleftrightarrow> (\<exists>n. n < length c \<and> guardAt (drop n c) = Some p
            \<and> (\<forall>m<n. guardAt (drop m c) = None))"
    proof
      assume "\<exists>n. n < length (a # c) \<and> guardAt (drop n (a # c)) = Some p
            \<and> (\<forall>m<n. guardAt (drop m (a # c)) = None)"
      then obtain n where n: "n < length (a # c)" "guardAt (drop n (a # c)) = Some p"
        "\<forall>m<n. guardAt (drop m (a # c)) = None" by blast
      from n(2) None obtain n' where s: "n = Suc n'" by (cases n) auto
      have "\<forall>m<n'. guardAt (drop m c) = None"
      proof (intro allI impI)
        fix m assume "m < n'"
        then have "Suc m < n" using s by simp
        with n(3) have "guardAt (drop (Suc m) (a # c)) = None" by blast
        then show "guardAt (drop m c) = None" by simp
      qed
      with n s have "n' < length c \<and> guardAt (drop n' c) = Some p
          \<and> (\<forall>m<n'. guardAt (drop m c) = None)" by simp
      then show "\<exists>n. n < length c \<and> guardAt (drop n c) = Some p
            \<and> (\<forall>m<n. guardAt (drop m c) = None)" by blast
    next
      assume "\<exists>n. n < length c \<and> guardAt (drop n c) = Some p
            \<and> (\<forall>m<n. guardAt (drop m c) = None)"
      then obtain n where n: "n < length c" "guardAt (drop n c) = Some p"
        "\<forall>m<n. guardAt (drop m c) = None" by blast
      have "\<forall>m<Suc n. guardAt (drop m (a # c)) = None"
      proof (intro allI impI)
        fix m assume m: "m < Suc n"
        show "guardAt (drop m (a # c)) = None"
        proof (cases m)
          case 0
          with None show ?thesis by simp
        next
          case (Suc m')
          with m n(3) show ?thesis by simp
        qed
      qed
      with n have "Suc n < length (a # c) \<and> guardAt (drop (Suc n) (a # c)) = Some p
          \<and> (\<forall>m<Suc n. guardAt (drop m (a # c)) = None)" by simp
      then show "\<exists>n. n < length (a # c) \<and> guardAt (drop n (a # c)) = Some p
            \<and> (\<forall>m<n. guardAt (drop m (a # c)) = None)" by blast
    qed
    with None Cons.IH show ?thesis by simp
  qed
qed

lemma firstGuard_iff: "firstGuard c x lit \<longleftrightarrow> guardSearch c = Some (x, lit)"
proof
  assume "firstGuard c x lit"
  then obtain n where n: "guardStartsAt c n x lit"
    and least: "\<forall>m y l. guardStartsAt c m y l \<longrightarrow> n \<le> m"
    unfolding firstGuard_def by blast
  have "\<forall>m<n. guardAt (drop m c) = None"
  proof (intro allI impI)
    fix m assume m: "m < n"
    show "guardAt (drop m c) = None"
    proof (cases "guardAt (drop m c)")
      case None
      then show ?thesis .
    next
      case (Some q)
      obtain y l where "q = (y, l)" by (cases q)
      moreover have "m < length c" using m n by (simp add: guardStartsAt_iff)
      ultimately have "guardStartsAt c m y l" using Some by (simp add: guardStartsAt_iff)
      with least have "n \<le> m" by blast
      with m show ?thesis by simp
    qed
  qed
  with n show "guardSearch c = Some (x, lit)"
    unfolding guardSearch_Some_iff guardStartsAt_iff by blast
next
  assume "guardSearch c = Some (x, lit)"
  then obtain n where n: "n < length c" "guardAt (drop n c) = Some (x, lit)"
    "\<forall>m<n. guardAt (drop m c) = None"
    unfolding guardSearch_Some_iff by blast
  have "\<forall>m y l. guardStartsAt c m y l \<longrightarrow> n \<le> m"
  proof (intro allI impI)
    fix m y l assume "guardStartsAt c m y l"
    then have "guardAt (drop m c) = Some (y, l)" by (simp add: guardStartsAt_iff)
    with n(3) have "\<not> m < n" by auto
    then show "n \<le> m" by simp
  qed
  with n show "firstGuard c x lit"
    unfolding firstGuard_def guardStartsAt_iff by blast
qed

lemma holdsGuard_iff:
  "holdsGuard c x lit \<longleftrightarrow> includesStr c ''contains'' \<and> guardSearch c = Some (x, lit)"
  by (simp add: holdsGuard_def firstGuard_iff includesStr_iff)

section \<open>Properties of the soil-data generator\<close>

lemma time_of_soilSample:
  "time (fst (soilSample h d 9 k)) = ''09:00''"
  "time (fst (soilSample h d 15 k)) = ''15:00''"
  by (simp_all add: soilSample_def Let_def padStart_def natToString.simps digitChar_def)

lemma date_of_soilSample: "date (fst (soilSample h d hr k)) = isoDate h d"
  by (simp add: soilSample_def Let_def)

lemma snd_soilSample: "snd (soilSample h d hr k) = k + 3"
  by (simp add: soilSample_def Let_def)

lemma t10_below_t0:
  assumes "0 \<le> random h (k + 1)"
  shows "t10 (fst (soilSample h d hr k)) < t0 (fst (soilSample h d hr k))"
proof -
  define n where "n = \<lfloor>(random h k * (300 - 293) + 293) * 100 + 1 / 2\<rfloor>"
  define r where "r = random h (k + 1)"
  have r: "0 \<le> r" using assms by (simp add: r_def)
  have a: "t0 (fst (soilSample h d hr k)) = of_int n / 100"
    by (simp add: soilSample_def Let_def Math_round_def n_def)
  have b: "t10 (fst (soilSample h d hr k))
      = of_int \<lfloor>(of_int n / 100 - (r * (3 - 3 / 2) + 3 / 2)) * 100 + 1 / 2\<rfloor> / 100"
    by (simp add: soilSample_def Let_def Math_round_def n_def r_def)
  have "(of_int n / 100 - (r * (3 - 3 / 2) + 3 / 2)) * 100 + 1 / 2 < (of_int n :: rat)"
    using r by (simp add: field_simps)
  then have "\<lfloor>(of_int n / 100 - (r * (3 - 3 / 2) + 3 / 2)) * 100 + 1 / 2\<rfloor> < n"
    by (simp add: floor_less_iff)
  then have "(of_int \<lfloor>(of_int n / 100 - (r * (3 - 3 / 2) + 3 / 2)) * 100 + 1 / 2\<rfloor> :: rat) < of_int n"
    by (simp only: of_int_less_iff)
  then show ?thesis
    by (simp only: a b divide_strict_right_mono zero_less_numeral)
qed

lemma moisture_range:
  assumes "0 \<le> random h (k + 2)" "random h (k + 2) < 1"
  shows "18 / 100 \<le> moisture (fst (soilSample h d hr k))
       \<and> moisture (fst (soilSample h d hr k)) \<le> 26 / 100"
proof -
  define r where "r = random h (k + 2)"
  define x where "x = (r * (26 / 100 - 18 / 100) + 18 / 100) * 100 + 1 / 2"
  have r: "0 \<le> r" "r < 1" using assms by (simp_all add: r_def)
  have m: "moisture (fst (soilSample h d hr k)) = of_int \<lfloor>x\<rfloor> / 100"
    by (simp add: soilSample_def Let_def Math_round_def x_def r_def)
  have "of_int 18 \<le> x" using r by (simp add: x_def field_simps)
  then have lo: "18 \<le> \<lfloor>x\<rfloor>" by (simp only: le_floor_iff)
  have "x < of_int 27" using r by (simp add: x_def field_simps)
  then have "\<lfloor>x\<rfloor> < 27" by (simp only: floor_less_iff)
  then have hi: "\<lfloor>x\<rfloor> \<le> 26" by simp
  have "(18::rat) \<le> of_int \<lfloor>x\<rfloor>" "(of_int \<lfloor>x\<rfloor> :: rat) \<le> 26"
    using lo hi by linarith+
  then show ?thesis by (simp add: m)
qed

lemma generateSoilData_unfold:
  "generateSoilData h k =
     ([fst (soilSample h 24 9 k), fst (soilSample h 24 15 (k + 3)),
       fst (soilSample h 25 9 (k + 6)), fst (soilSample h 25 15 (k + 9)),
       fst (soilSample h 26 9 (k + 12)), fst (soilSample h 26 15 (k + 15)),
       fst (soilSample h 27 9 (k + 18)), fst (soilSample h 27 15 (k + 21)),
       fst (soilSample h 28 9 (k + 24)), fst (soilSample h 28 15 (k + 27)),
       fst (soilSample h 29 9 (k + 30)), fst (soilSample h 29 15 (k + 33))],
      k + 36)"
proof -
  have step: "hoursLoop h d [9, 15] (data, j) =
      (data @ [fst (soilSample h d 9 j), fst (soilSample h d 15 (j + 3))], j + 6)" for d data j
    by (simp add: Let_def split_beta snd_soilSample)
  show ?thesis
    unfolding generateSoilData_def
    by (simp add: daysLoop.simps [of h] step add.commute del: hoursLoop.simps)
qed

lemma floor_rat_div_numeral: "\<lfloor>(numeral a :: rat) / numeral b\<rfloor> = numeral a div numeral b"
  using floor_divide_of_int_eq [of "numeral a" "numeral b", where ?'a = rat] by simp

section \<open>Properties of the executor\<close>

text \<open>
  \<open>fetchFails r\<close>: the weather provider fails, by a transport error or by a response whose
  \<^verbatim>\<open>ok\<close> flag is false.
\<close>

definition fetchFails :: "fetch_result \<Rightarrow> bool" where
  "fetchFails r = (case r of RequestFailed \<Rightarrow> True | Response ok body \<Rightarrow> \<not> ok)"

text \<open>
  \<open>onlyFinalAnswer res\<close>: of the five result fields of a response, none but
  \<^verbatim>\<open>final_answer\<close> is set, and that one holds the fallback text of the response formatter
  if it is set.
\<close>

definition onlyFinalAnswer :: "AgentResponse \<Rightarrow> bool" where
  "onlyFinalAnswer res \<longleftrightarrow>
     weather res = None \<and> soil res = None \<and> disease res = None \<and> allocation res = None
     \<and> (final_answer res = None \<or> final_answer res = Some (JStr genericAdvice))"

lemma runStep_Some_Inr: "\<exists>st'. runStep h st (Some step) = Inr st'"
  by (cases st)
    (simp add: runStep_def stepFailed_def stepSucceeded_def Let_def split: sum.splits prod.splits)

lemma runWorkflow_raises_iff:
  "(\<exists>e. snd (runWorkflow h st entries) = Some e) \<longleftrightarrow> None \<in> set entries"
proof (induction entries arbitrary: st)
  case Nil
  show ?case by simp
next
  case (Cons entry entries)
  show ?case
  proof (cases entry)
    case None
    obtain b k res where "st = (b, k, res)" by (cases st)
    then show ?thesis by (simp add: None runStep_def)
  next
    case (Some step)
    obtain st' where "runStep h st (Some step) = Inr st'"
      using runStep_Some_Inr by blast
    then show ?thesis using Cons.IH [of st'] by (simp add: Some)
  qed
qed

lemma runWorkflow_raised:
  "snd (runWorkflow h st entries) = Some e \<Longrightarrow> e = TypeError (typeErrorMessage h ''read id'')"
proof (induction entries arbitrary: st)
  case Nil
  then show ?case by simp
next
  case (Cons entry entries)
  show ?case
  proof (cases entry)
    case None
    obtain b k res where "st = (b, k, res)" by (cases st)
    with Cons.prems show ?thesis by (simp add: None runStep_def)
  next
    case (Some step)
    obtain st' where "runStep h st (Some step) = Inr st'"
      using runStep_Some_Inr by blast
    with Cons show ?thesis by (simp add: Some)
  qed
qed

lemma getFallbackResult_formatter [simp]:
  "getFallbackResult h k b ''response_formatter'' = JStr genericAdvice"
  by (simp add: getFallbackResult_def)

lemma runStep_success:
  "runStep h (b, k, res) entry = Inr (b', k', res')
     \<Longrightarrow> success res' = success res \<and> error res' = error res"
  by (cases entry)
     (auto simp: runStep_def stepFailed_def stepSucceeded_def storeResult_def Let_def
           split: sum.splits prod.splits if_splits)

lemma runWorkflow_success:
  "runWorkflow h (b, k, res) entries = ((b', k', res'), x)
     \<Longrightarrow> success res' = success res \<and> error res' = error res"
proof (induction entries arbitrary: b k res)
  case Nil
  then show ?case by simp
next
  case (Cons entry entries)
  show ?case
  proof (cases "runStep h (b, k, res) entry")
    case (Inl e)
    with Cons.prems show ?thesis by simp
  next
    case (Inr st)
    obtain b1 k1 res1 where st: "st = (b1, k1, res1)" by (cases st)
    from Cons.prems Inr st have "runWorkflow h (b1, k1, res1) entries = ((b', k', res'), x)"
      by simp
    then have "success res' = success res1 \<and> error res' = error res1"
      by (rule Cons.IH)
    moreover have "success res1 = success res \<and> error res1 = error res"
      using Inr st runStep_success by blast
    ultimately show ?thesis by simp
  qed
qed

lemma getWeatherData_fails:
  "fetchFails (fetch h k step) \<Longrightarrow> getWeatherData h k step = (fallbackWeather, k + 1)"
  by (auto simp: getWeatherData_def fetchFails_def split: fetch_result.splits)

lemma executeStep_weather_api:
  assumes "step_id step = ''weather_api''" "executeStep h k b step = Inr (r, k')"
    and "\<forall>k s. fetchFails (fetch h k s)"
  shows "r = fallbackWeather"
proof -
  have "getWeatherData h k step = (fallbackWeather, k + 1)"
    using assms(3) by (simp add: getWeatherData_fails)
  with assms(1,2) show ?thesis
    by (auto simp: executeStep_def executeModelCall_def executeApiCall_def executePythonCode_def
          Let_def thenE_Inr split: if_splits jsval.splits)
qed

lemma runStep_weather_inv:
  assumes "\<forall>k s. fetchFails (fetch h k s)"
    and "runStep h (b, k, res) (Some step) = Inr (b', k', res')"
    and "weather res = Some fallbackWeather"
  shows "weather res' = Some fallbackWeather"
proof (cases "skipped b step")
  case True
  with assms(2,3) show ?thesis by (simp add: runStep_def)
next
  case False
  show ?thesis
  proof (cases "executeStep h k b step")
    case (Inl e)
    with False assms(2,3) show ?thesis
      by (auto simp: runStep_def stepFailed_def Let_def)
  next
    case (Inr p)
    obtain r k1 where p: "p = (r, k1)" by (cases p)
    have "step_id step = ''weather_api'' \<Longrightarrow> r = fallbackWeather"
      using Inr p assms(1) executeStep_weather_api by blast
    with False Inr p assms(2,3) show ?thesis
      by (auto simp: runStep_def stepSucceeded_def storeResult_def)
  qed
qed

lemma runWorkflow_weather_inv:
  assumes "\<forall>k s. fetchFails (fetch h k s)"
  shows "None \<notin> set entries \<Longrightarrow> weather res = Some fallbackWeather
     \<Longrightarrow> runWorkflow h (b, k, res) entries = ((b', k', res'), x)
     \<Longrightarrow> weather res' = Some fallbackWeather"
proof (induction entries arbitrary: b k res)
  case Nil
  then show ?case by simp
next
  case (Cons entry entries)
  then obtain step where entry: "entry = Some step" by (cases entry) auto
  obtain st where st: "runStep h (b, k, res) (Some step) = Inr st"
    using runStep_Some_Inr by blast
  obtain b1 k1 res1 where st1: "st = (b1, k1, res1)" by (cases st)
  have "weather res1 = Some fallbackWeather"
    using assms st [unfolded st1] Cons.prems(2) by (rule runStep_weather_inv)
  moreover have "runWorkflow h (b1, k1, res1) entries = ((b', k', res'), x)"
    using Cons.prems(3) st st1 entry by simp
  moreover have "None \<notin> set entries" using Cons.prems(1) by simp
  ultimately show ?case using Cons.IH by blast
qed

lemma runWorkflow_append:
  "runWorkflow h st (xs @ ys) =
     (case runWorkflow h st xs of
        (st', None) \<Rightarrow> runWorkflow h st' ys
      | (st', Some e) \<Rightarrow> (st', Some e))"
  by (induction xs arbitrary: st) (auto split: sum.splits)

lemma runWorkflow_no_null:
  "None \<notin> set entries \<Longrightarrow> snd (runWorkflow h st entries) = None"
  using runWorkflow_raises_iff [of h st entries] by auto

lemma runStep_failing:
  assumes "isl (executeStep h k b step)"
  shows "runStep h (b, k, res) (Some step)
      = Inr (if skipped b step then (b, k, res) else stepFailed h step k b res)"
  using assms by (cases "executeStep h k b step") (simp_all add: runStep_def)

lemma stepFailed_response:
  "stepFailed h step k b res = (b', k', res') \<Longrightarrow>
     res' = (if step_id step = ''response_formatter''
             then res\<lparr>final_answer := Some (JStr genericAdvice)\<rparr> else res)"
  by (auto simp: stepFailed_def Let_def)

lemma runStep_skipped: "skipped b step \<Longrightarrow> runStep h (b, k, res) (Some step) = Inr (b, k, res)"
  by (simp add: runStep_def)

lemma runWorkflow_failing:
  assumes "handlersFail h (b, k, res) steps"
    and "runWorkflow h (b, k, res) (map Some steps) = ((b', k', res'), x)"
  shows "(onlyFinalAnswer res \<longrightarrow> onlyFinalAnswer res')
       \<and> (final_answer res = Some (JStr genericAdvice) \<longrightarrow> final_answer res' = Some (JStr genericAdvice))
       \<and> ((\<exists>step\<in>set steps. step_id step = ''response_formatter'' \<and> (\<forall>bg. \<not> skipped bg step))
            \<longrightarrow> final_answer res' = Some (JStr genericAdvice))"
  using assms
proof (induction steps arbitrary: b k res)
  case Nil
  then show ?case by simp
next
  case (Cons step steps)
  obtain b1 k1 res1 where st: "(if skipped b step then (b, k, res) else stepFailed h step k b res)
      = (b1, k1, res1)"
    by (metis prod.exhaust)
  have step: "runStep h (b, k, res) (Some step) = Inr (b1, k1, res1)"
  proof (cases "skipped b step")
    case True
    with st show ?thesis by (simp add: runStep_skipped)
  next
    case False
    with Cons.prems(1) have "isl (executeStep h k b step)" by simp
    then show ?thesis using st by (simp add: runStep_failing)
  qed
  have hf: "handlersFail h (b1, k1, res1) steps"
    using Cons.prems(1) st by (auto split: if_splits)
  have run: "runWorkflow h (b1, k1, res1) (map Some steps) = ((b', k', res'), x)"
    using Cons.prems(2) step by simp
  have ih: "(onlyFinalAnswer res1 \<longrightarrow> onlyFinalAnswer res')
       \<and> (final_answer res1 = Some (JStr genericAdvice) \<longrightarrow> final_answer res' = Some (JStr genericAdvice))
       \<and> ((\<exists>step\<in>set steps. step_id step = ''response_formatter'' \<and> (\<forall>bg. \<not> skipped bg step))
            \<longrightarrow> final_answer res' = Some (JStr genericAdvice))"
    using Cons.IH [OF hf run] .
  have r1: "res1 = res \<or> (\<not> skipped b step \<and> res1 =
      (if step_id step = ''response_formatter''
       then res\<lparr>final_answer := Some (JStr genericAdvice)\<rparr> else res))"
    using st stepFailed_response [of h step k b res b1 k1 res1] by (auto split: if_splits)
  have a: "onlyFinalAnswer res \<Longrightarrow> onlyFinalAnswer res1"
    using r1 by (auto simp: onlyFinalAnswer_def split: if_splits)
  have b: "final_answer res = Some (JStr genericAdvice) \<Longrightarrow> final_answer res1 = Some (JStr genericAdvice)"
    using r1 by (auto split: if_splits)
  have c: "step_id step = ''response_formatter'' \<Longrightarrow> \<forall>bg. \<not> skipped bg step
      \<Longrightarrow> final_answer res1 = Some (JStr genericAdvice)"
    using st stepFailed_response [of h step k b res b1 k1 res1] by (auto split: if_splits)
  show ?case using ih a b c by auto
qed

lemma execute_ConfigObject:
  "execute h (ConfigObject config) inputs =
     (case executeBody h config inputs of
        ((b, k, res), None) \<Rightarrow> Inr res
      | ((b, k, res), Some e) \<Rightarrow>
          Inr \<lparr>weather = None, soil = None, disease = None, allocation = None,
               final_answer = Some (JStr genericAdvice), success = False,
               error = Some (message e)\<rparr>)"
  by (simp add: execute_def tryBlock_def readFallbacks_def split: prod.splits option.splits)

lemma executeBody_raises_iff:
  "snd (executeBody h config inputs) \<noteq> None \<longleftrightarrow>
     (case workflow config of None \<Rightarrow> True | Some entries \<Rightarrow> None \<in> set entries)"
  by (cases "workflow config") (simp_all add: executeBody_def runWorkflow_raises_iff)

lemma executeBody_success:
  assumes "executeBody h config inputs = ((b, k, res), None)"
  shows "success res \<and> error res = None"
proof (cases "workflow config")
  case None
  with assms show ?thesis by (simp add: executeBody_def)
next
  case (Some entries)
  with assms have "runWorkflow h (newBag (inputsToJs inputs), 0, emptyResponse) entries
      = ((b, k, res), None)"
    by (simp add: executeBody_def initialState_def)
  then have "success res = success emptyResponse \<and> error res = error emptyResponse"
    by (rule runWorkflow_success)
  then show ?thesis by (simp add: emptyResponse_def)
qed

lemma execute_outer_failure:
  assumes "workflow config = None \<or> (\<exists>entries. workflow config = Some entries \<and> None \<in> set entries)"
  shows "\<exists>e. execute h (ConfigObject config) inputs
      = Inr \<lparr>weather = None, soil = None, disease = None, allocation = None,
             final_answer = Some (JStr genericAdvice), success = False,
             error = Some (message e)\<rparr>"
proof -
  obtain b k res x where body: "executeBody h config inputs = ((b, k, res), x)"
    by (metis prod.exhaust)
  have "snd (executeBody h config inputs) \<noteq> None"
    unfolding executeBody_raises_iff using assms by auto
  with body obtain e where "x = Some e" by auto
  with body have "execute h (ConfigObject config) inputs
      = Inr \<lparr>weather = None, soil = None, disease = None, allocation = None,
             final_answer = Some (JStr genericAdvice), success = False,
             error = Some (message e)\<rparr>"
    by (simp add: execute_ConfigObject)
  then show ?thesis by blast
qed

section \<open>Properties of the response formatter\<close>

lemma acknowledgment_shape:
  assumes "acknowledgment h q w = Inr p"
  shows "(length p \<le> 44 \<or> 50 < length p) \<and> 32 \<le> length p \<and> p \<noteq> [] \<and> \<not> isSpace (hd p)"
  using assms
  by (auto simp: acknowledgment_def Let_def thenE_Inr isSpace_def split: if_splits)

lemma weatherPart_shape:
  assumes "weatherPart h w = Inr p"
  shows "p = [] \<or> 28 \<le> length p"
  using assms
  by (auto simp: weatherPart_def thenE_Inr split: if_splits)

lemma soilPart_shape:
  assumes "soilPart h w = Inr p"
  shows "p = [] \<or> 28 \<le> length p"
  using assms
  by (auto simp: soilPart_def thenE_Inr split: if_splits)

lemma diseasePart_shape:
  assumes "diseasePart h w = Inr p"
  shows "p = [] \<or> 28 \<le> length p"
  using assms
  by (auto simp: diseasePart_def Let_def thenE_Inr split: if_splits)

lemma allocationPart_shape:
  assumes "allocationPart h w = Inr p"
  shows "p = [] \<or> 28 \<le> length p"
  using assms
  by (auto simp: allocationPart_def thenE_Inr split: if_splits)

lemma dropWhile_keeps: "xs \<noteq> [] \<Longrightarrow> \<not> P (hd xs) \<Longrightarrow> dropWhile P xs = xs"
  by (cases xs) auto

lemma trim_id: "s \<noteq> [] \<Longrightarrow> \<not> isSpace (hd s) \<Longrightarrow> \<not> isSpace (last s) \<Longrightarrow> trim s = s"
proof -
  assume a: "s \<noteq> []" "\<not> isSpace (hd s)" "\<not> isSpace (last s)"
  then have 1: "dropWhile isSpace s = s" by (simp add: dropWhile_keeps)
  have "rev s \<noteq> []" "\<not> isSpace (hd (rev s))" using a by (simp_all add: hd_rev)
  then have 2: "dropWhile isSpace (rev s) = rev s" by (rule dropWhile_keeps)
  show ?thesis by (simp add: trim_def 1 2)
qed

lemma assembleResponse_shape:
  assumes "assembleResponse h b = Inr response"
  shows "(length response \<le> 44 \<or> 50 < length response)
       \<and> response \<noteq> [] \<and> \<not> isSpace (hd response)"
proof -
  from assms obtain q p1 p2 p3 p4 p5 where
    "acknowledgment h q (lookup b ''weather_data'') = Inr p1"
    "weatherPart h (lookup b ''weather_data'') = Inr p2"
    "soilPart h (lookup b ''soil_data'') = Inr p3"
    "diseasePart h (lookup b ''disease_report'') = Inr p4"
    "allocationPart h (lookup b ''allocation_plan'') = Inr p5"
    and r: "response = p1 @ p2 @ p3 @ p4 @ p5"
    unfolding assembleResponse_def thenE_Inr by blast
  then have p1: "(length p1 \<le> 44 \<or> 50 < length p1) \<and> 32 \<le> length p1 \<and> p1 \<noteq> [] \<and> \<not> isSpace (hd p1)"
    and p2: "p2 = [] \<or> 28 \<le> length p2" and p3: "p3 = [] \<or> 28 \<le> length p3"
    and p4: "p4 = [] \<or> 28 \<le> length p4" and p5: "p5 = [] \<or> 28 \<le> length p5"
    using acknowledgment_shape weatherPart_shape soilPart_shape diseasePart_shape
      allocationPart_shape by blast+
  have "length response \<le> 44 \<or> 50 < length response"
  proof (cases "p2 = [] \<and> p3 = [] \<and> p4 = [] \<and> p5 = []")
    case True
    with p1 show ?thesis by (simp add: r)
  next
    case False
    then have "28 \<le> length p2 + length p3 + length p4 + length p5"
      using p2 p3 p4 p5 by auto
    with p1 show ?thesis by (simp add: r)
  qed
  moreover have "response \<noteq> []" "hd response = hd p1" using p1 by (simp_all add: r)
  ultimately show ?thesis using p1 by simp
qed

lemma farmingTips_end: "farmingTips \<noteq> []" "\<not> isSpace (last farmingTips)"
  "butlast farmingTips \<noteq> []" "last (butlast farmingTips) = CHR ''s''"
  by (simp_all add: farmingTips_def isSpace_def)

lemma genericAdvice_end: "genericAdvice \<noteq> []" "\<not> isSpace (hd genericAdvice)"
  "\<not> isSpace (last genericAdvice)" "last (butlast genericAdvice) = CHR ''y''"
  by (simp_all add: genericAdvice_def isSpace_def)

lemma getProp_nullish: "getProp v key = JNum x \<Longrightarrow> \<not> nullish v"
  by (cases v) (auto simp: nullish_def)

lemma getProp_nullish_str: "getProp v key = JStr s \<Longrightarrow> \<not> nullish v"
  by (cases v) (auto simp: nullish_def)

lemma greaterThan_JNum [simp]: "greaterThan h (JNum x) y = Inr (y < x)"
  by (simp add: greaterThan_def ToNumber_def)

lemma lessThan_JNum [simp]: "lessThan h (JNum x) y = Inr (x < y)"
  by (simp add: lessThan_def ToNumber_def)

lemma weatherPart_typed:
  assumes "truthy w"
    and "getProp (getProp w ''main'') ''temp'' = JNum t"
    and "getProp (getProp w ''main'') ''humidity'' = JNum u"
  shows "weatherPart h w = Inr (''Current temperature is '' @ numberToString h t @ [CHR 0xB0]
           @ ''C with '' @ numberToString h u @ ''% humidity. ''
           @ (if 30 < t then ''It'' @ [CHR 0x27] @ ''s quite hot, so your crops will need more water. ''
              else if t < 20 then ''The weather is cool, which is good for most crops. ''
              else []))"
proof -
  have "\<not> nullish (getProp w ''main'')" using assms(2) by (rule getProp_nullish)
  then have "getMember h (getProp w ''main'') ''temp'' = Inr (JNum t)"
    using assms(2) by (simp add: getMember_def)
  then show ?thesis
    using assms(1,3) by (simp add: weatherPart_def)
qed

lemma weatherPart_absent: "\<not> truthy w \<Longrightarrow> weatherPart h w = Inr []"
  by (simp add: weatherPart_def)

lemma numberToString_of_nat:
  "n < 2 ^ 32 \<Longrightarrow> numberToString h (of_nat n) = natToString n"
proof -
  assume n: "n < 2 ^ 32"
  have "n < 10 ^ 21" using n by simp
  then have "(of_nat n :: rat) < of_nat (10 ^ 21)" by (simp only: of_nat_less_iff)
  then have "(of_nat n :: rat) < 10 ^ 21" by simp
  then show ?thesis by (simp add: numberToString_def)
qed

lemma latestOf_array:
  assumes "xs \<noteq> []" "length xs < 2 ^ 32"
  shows "latestOf h (JArr xs) = Inr (last xs)"
proof -
  have len: "(of_nat (length xs) :: rat) - 1 = of_nat (length xs - 1)"
    using assms(1) by (cases xs) simp_all
  have "length xs - 1 < 2 ^ 32" using assms(2) by simp
  then have key: "numberToString h (of_nat (length xs) - 1) = natToString (length xs - 1)"
    unfolding len by (rule numberToString_of_nat)
  have "length xs - 1 < length xs" using assms(1) by (cases xs) simp_all
  then have "getProp (JArr xs) (natToString (length xs - 1)) = xs ! (length xs - 1)"
    by (rule getProp_index)
  moreover have "last xs = xs ! (length xs - 1)"
    using assms(1) by (rule last_conv_nth)
  ultimately have idx: "getProp (JArr xs) (natToString (length xs - 1)) = last xs"
    by (simp only:)
  have 1: "ToNumber h (getProp (JArr xs) ''length'') = Inr (Finite (of_nat (length xs)))"
    by (simp add: ToNumber_def)
  have 2: "jsnumToString h (minusOne (Finite (of_nat (length xs)))) = natToString (length xs - 1)"
    by (simp add: minusOne_def jsnumToString_def key)
  show ?thesis
    unfolding latestOf_def 1 by (simp only: thenE_simps 2 idx)
qed

lemma nonEmpty_array: "nonEmpty h (JArr xs) = Inr (xs \<noteq> [])"
  by (simp add: nonEmpty_def truthy_def)

lemma toFixed0_percent:
  assumes "0 \<le> m" "m < 10 ^ 19"
  shows "toFixed0 h (timesHundred (Finite m)) = natToString (nat \<lfloor>m * 100 + 1 / 2\<rfloor>)"
proof -
  have "m * 100 < 10 ^ 19 * 100" using assms(2) by simp
  then have "\<bar>m * 100\<bar> < 10 ^ 21" using assms(1) by simp
  then show ?thesis
    using assms(1) by (simp add: toFixed0_def timesHundred_def)
qed

lemma soilPart_typed:
  assumes "xs \<noteq> []" "length xs < 2 ^ 32"
    and "getProp (last xs) ''moisture'' = JNum m" "0 \<le> m" "m < 10 ^ 19"
  shows "soilPart h (JArr xs) = Inr (''Your soil moisture is at ''
           @ natToString (nat \<lfloor>m * 100 + 1 / 2\<rfloor>) @ ''%. ''
           @ (if m < 2 / 10 then ''This is on the low side, so consider watering your crops soon. ''
              else if 25 / 100 < m
              then ''Moisture levels are good, so you can wait a day before the next watering. ''
              else []))"
proof -
  have "\<not> nullish (last xs)" using assms(3) by (rule getProp_nullish)
  then have g: "getMember h (last xs) ''moisture'' = Inr (JNum m)"
    using assms(3) by (simp add: getMember_def)
  show ?thesis
    using assms(1)
    by (simp add: soilPart_def nonEmpty_array latestOf_array [OF assms(1,2)] g ToNumber_def
        toFixed0_percent [OF assms(4,5)])
qed

lemma soilPart_absent:
  "soilPart h (JArr []) = Inr []" "\<not> truthy s \<Longrightarrow> soilPart h s = Inr []"
  by (simp_all add: soilPart_def nonEmpty_array) (simp add: nonEmpty_def)

lemma diseasePart_typed:
  assumes "truthy d" "getProp d ''condition'' = JStr c" "c \<noteq> []" "c \<noteq> ''Healthy''"
    and "getProp d ''explanation'' = JStr e" "e \<noteq> []"
    and "getProp d ''treatment'' = JStr t" "t \<noteq> []"
  shows "diseasePart h d = Inr (''I noticed signs of '' @ toLowerCase c @ '' in your crop. ''
           @ e @ '' '' @ ''My recommendation: '' @ toLowerCase t @ ''. '')"
  using assms
  by (simp add: diseasePart_def Let_def truthy_def lowerIfString_def orElse_def toLowerCase_def)

lemma diseasePart_healthy:
  "truthy d \<Longrightarrow> getProp d ''condition'' = JStr ''Healthy''
     \<Longrightarrow> diseasePart h d = Inr ''Your crops look healthy, which is great! ''"
  "\<not> truthy d \<Longrightarrow> diseasePart h d = Inr []"
  by (simp_all add: diseasePart_def Let_def)

lemma allocationPart_typed:
  assumes "truthy a"
    and "getProp (getProp a ''allocation'') ''approved_percent'' = JNum p"
    and "getProp (getProp a ''allocation'') ''delivery_schedule'' = JStr s"
  shows "allocationPart h a = Inr (''Regarding your request for resources, I can approve ''
           @ numberToString h p @ ''% of what you asked for. ''
           @ ''Delivery can be arranged '' @ toLowerCase s @ ''. '')"
proof -
  have "\<not> nullish (getProp a ''allocation'')" using assms(2) by (rule getProp_nullish)
  then have "getMember h (getProp a ''allocation'') ''approved_percent'' = Inr (JNum p)"
    using assms(2) by (simp add: getMember_def)
  then show ?thesis
    using assms(1,3) by (simp add: allocationPart_def lowerIfString_def)
qed

lemma allocationPart_absent: "\<not> truthy a \<Longrightarrow> allocationPart h a = Inr []"
  by (simp add: allocationPart_def)

lemma formatterQuery_typed:
  "optGet (lookup b ''inputs'') ''farmer_query'' = JStr q \<Longrightarrow> formatterQuery h b = Inr q"
  by (cases "q = []") (simp_all add: formatterQuery_def Let_def nullish_def)

lemma assembleResponse_parts:
  assumes "formatterQuery h b = Inr q"
    and "acknowledgment h q (lookup b ''weather_data'') = Inr p1"
    and "weatherPart h (lookup b ''weather_data'') = Inr p2"
    and "soilPart h (lookup b ''soil_data'') = Inr p3"
    and "diseasePart h (lookup b ''disease_report'') = Inr p4"
    and "allocationPart h (lookup b ''allocation_plan'') = Inr p5"
  shows "assembleResponse h b = Inr (p1 @ p2 @ p3 @ p4 @ p5)"
  using assms by (simp add: assembleResponse_def)

lemma weatherPart_present: "truthy w \<Longrightarrow> weatherPart h w = Inr p \<Longrightarrow> 28 \<le> length p"
  by (auto simp: weatherPart_def thenE_Inr split: if_splits)

lemma soilPart_present: "nonEmpty h s = Inr True \<Longrightarrow> soilPart h s = Inr p \<Longrightarrow> 28 \<le> length p"
  by (auto simp: soilPart_def thenE_Inr split: if_splits)

lemma diseasePart_present: "truthy d \<Longrightarrow> diseasePart h d = Inr p \<Longrightarrow> 28 \<le> length p"
  by (auto simp: diseasePart_def Let_def thenE_Inr split: if_splits)

lemma allocationPart_present: "truthy a \<Longrightarrow> allocationPart h a = Inr p \<Longrightarrow> 28 \<le> length p"
  by (auto simp: allocationPart_def thenE_Inr split: if_splits)

lemma assembleResponse_with_data:
  assumes "assembleResponse h b = Inr response"
    and "truthy (lookup b ''weather_data'') \<or> nonEmpty h (lookup b ''soil_data'') = Inr True
       \<or> truthy (lookup b ''disease_report'') \<or> truthy (lookup b ''allocation_plan'')"
  shows "50 < length response"
proof -
  from assms(1) obtain q p1 p2 p3 p4 p5 where
    a: "acknowledgment h q (lookup b ''weather_data'') = Inr p1"
    and w: "weatherPart h (lookup b ''weather_data'') = Inr p2"
    and s: "soilPart h (lookup b ''soil_data'') = Inr p3"
    and d: "diseasePart h (lookup b ''disease_report'') = Inr p4"
    and l: "allocationPart h (lookup b ''allocation_plan'') = Inr p5"
    and r: "response = p1 @ p2 @ p3 @ p4 @ p5"
    unfolding assembleResponse_def thenE_Inr by blast
  have "32 \<le> length p1" using a acknowledgment_shape by blast
  moreover have "28 \<le> length p2 \<or> 28 \<le> length p3 \<or> 28 \<le> length p4 \<or> 28 \<le> length p5"
    using assms(2) w s d l weatherPart_present soilPart_present diseasePart_present
      allocationPart_present by blast
  ultimately show ?thesis by (auto simp: r)
qed

lemma rainExpected_cases:
  "optGet (optGet (optGet w ''weather'') ''0'') ''description'' = JStr s \<and> includesStr s ''rain''
     \<Longrightarrow> rainExpected h w = Inr True"
  "(\<forall>s. optGet (optGet (optGet w ''weather'') ''0'') ''description'' = JStr s
          \<longrightarrow> \<not> includesStr s ''rain'')
     \<and> optGet (optGet w ''main'') ''humidity'' = JNum u
     \<Longrightarrow> rainExpected h w = Inr (80 < u)"
  "rainExpected h JUndefined = Inr False"
proof -
  show "optGet (optGet (optGet w ''weather'') ''0'') ''description'' = JStr s \<and> includesStr s ''rain''
     \<Longrightarrow> rainExpected h w = Inr True"
    by (cases "s = []") (auto simp: rainExpected_def Let_def)
  show "(\<forall>s. optGet (optGet (optGet w ''weather'') ''0'') ''description'' = JStr s
          \<longrightarrow> \<not> includesStr s ''rain'')
     \<and> optGet (optGet w ''main'') ''humidity'' = JNum u
     \<Longrightarrow> rainExpected h w = Inr (80 < u)"
    by (cases "optGet (optGet (optGet w ''weather'') ''0'') ''description''")
       (auto simp: rainExpected_def Let_def)
  show "rainExpected h JUndefined = Inr False"
    by (simp add: rainExpected_def Let_def optGet_def nullish_def greaterThan_def ToNumber_def)
qed

lemma formatter_short:
  assumes "assembleResponse h b = Inr response" "length response < 50"
  shows "simulateResponseFormatter h b = Inr genericAdvice"
proof -
  have "trim genericAdvice = genericAdvice"
    using genericAdvice_end by (simp add: trim_id)
  with assms show ?thesis
    by (simp add: simulateResponseFormatter_def)
qed

lemma formatter_long:
  assumes "assembleResponse h b = Inr response" "50 \<le> length response"
  shows "simulateResponseFormatter h b = Inr (response @ farmingTips)
       \<and> response @ farmingTips \<noteq> genericAdvice"
proof
  from assms(1) have s: "(length response \<le> 44 \<or> 50 < length response)
       \<and> response \<noteq> [] \<and> \<not> isSpace (hd response)"
    by (rule assembleResponse_shape)
  with assms(2) have big: "50 < length response" by simp
  have "trim (response @ farmingTips) = response @ farmingTips"
    using s farmingTips_end by (simp add: trim_id)
  with assms(1) big show "simulateResponseFormatter h b = Inr (response @ farmingTips)"
    by (simp add: simulateResponseFormatter_def)
  have "last (butlast (response @ farmingTips)) = CHR ''s''"
    using farmingTips_end by (simp add: butlast_append)
  then show "response @ farmingTips \<noteq> genericAdvice"
    using genericAdvice_end(4) by auto
qed

section \<open>A call that runs alone\<close>

lemma finish_advance:
  "(case advance h (b, k) entries res of (sh, c) \<Rightarrow> finish h sh c)
     = (case runWorkflow h (b, k, res) entries of
          ((b', k', res'), None) \<Rightarrow> res'
        | ((b', k', res'), Some e) \<Rightarrow> failureResponse h (b', k') e)"
proof (induction entries arbitrary: b k res)
  case Nil
  show ?case by simp
next
  case (Cons entry entries)
  show ?case
  proof (cases entry)
    case None
    then show ?thesis by (simp add: runStep_def)
  next
    case (Some step)
    show ?thesis
    proof (cases "skipped b step")
      case True
      then show ?thesis using Cons.IH [of b k res] by (simp add: Some runStep_def)
    next
      case False
      show ?thesis
      proof (cases "executeStep h k b step")
        case (Inl e)
        obtain b1 k1 res1 where f: "stepFailed h step k b res = (b1, k1, res1)"
          by (metis prod.exhaust)
        show ?thesis
          using Cons.IH [of b1 k1 res1] False Inl f
          by (simp add: Some runStep_def resume_def)
      next
        case (Inr p)
        obtain r k' where p: "p = (r, k')" by (cases p)
        obtain b1 k1 res1 where f: "stepSucceeded step r k' b res = (b1, k1, res1)"
          by (metis prod.exhaust)
        show ?thesis
          using Cons.IH [of b1 k1 res1] False Inr p f
          by (simp add: Some runStep_def resume_def)
      qed
    qed
  qed
qed

lemma execute_alone:
  "execute h (ConfigObject config) inputs
     = Inr (case start h (b0, 0) config inputs of (sh, c) \<Rightarrow> finish h sh c)"
proof (cases "workflow config")
  case None
  then show ?thesis
    by (simp add: execute_def tryBlock_def executeBody_def initialState_def start_def
        failureResponse_def readFallbacks_def thenE_def)
next
  case (Some entries)
  obtain b k res x where run:
    "runWorkflow h (newBag (inputsToJs inputs), 0, emptyResponse) entries = ((b, k, res), x)"
    by (metis prod.exhaust)
  show ?thesis
    using finish_advance [of h "newBag (inputsToJs inputs)" 0 entries emptyResponse] run
    by (cases x)
       (simp_all add: Some execute_def tryBlock_def executeBody_def initialState_def start_def
          failureResponse_def readFallbacks_def thenE_def)
qed

section \<open>A host for the examples\<close>

text \<open>
  The built-ins that the examples read, as every engine has them. \<open>Engine 0\<close> is the
  function \<^verbatim>\<open>Object\<close>, \<open>Engine 1\<close> the prototype of every object, \<open>Engine 2\<close> its method
  \<^verbatim>\<open>toString\<close>, \<open>Engine 3\<close> the function \<^verbatim>\<open>String\<close>, \<open>Engine 4\<close> the method \<^verbatim>\<open>trim\<close> of a
  string. A string inherits what an object does, but its own constructor. A function has
  a \<^verbatim>\<open>name\<close>; the read of its \<^verbatim>\<open>caller\<close> throws; it has no JSON text. The prototype of
  every object has no property that \<^verbatim>\<open>JSON.stringify\<close> lists.
\<close>

definition demoInherited :: "standard_prototype \<Rightarrow> string \<Rightarrow> exn + reached" where
  "demoInherited p name =
     (if name = ''constructor'' then Inr (if p = StringPrototype then Engine 3
        else if p = ObjectPrototype then Engine 0 else Data JUndefined)
      else if name = ''__proto__'' \<and> p = ObjectPrototype then Inr (Engine 1)
      else if name = ''toString'' \<and> p = ObjectPrototype then Inr (Engine 2)
      else if name = ''trim'' \<and> p = StringPrototype then Inr (Engine 4)
      else Inr (Data JUndefined))"

definition demoEngineGet :: "nat \<Rightarrow> string \<Rightarrow> exn + reached" where
  "demoEngineGet n name =
     (if n \<noteq> 1 \<and> name = ''caller'' then Inl (TypeError ''cannot read caller'')
      else if name = ''name''
      then Inr (Data (if n = 0 then JStr ''Object'' else if n = 2 then JStr ''toString''
             else if n = 3 then JStr ''String'' else if n = 4 then JStr ''trim''
             else JUndefined))
      else if n = 0 \<and> name = ''prototype'' then Inr (Engine 1)
      else if n = 1 \<and> name = ''constructor'' then Inr (Engine 0)
      else if n = 1 \<and> name = ''toString'' then Inr (Engine 2)
      else Inr (Data JUndefined))"

definition demoEngineJSON :: "nat \<Rightarrow> exn + string option" where
  "demoEngineJSON n = Inr (if n = 1 then Some ''{}'' else None)"

text \<open>
  Every draw is one half, day \<open>d\<close> of September 2025 is printed in UTC, the clock stands
  at 24 September 2025, and every weather request fails. The two number conversions are
  placeholders: no example converts a fraction to a string or a string to a number.
\<close>

definition demoHost :: host where
  "demoHost = \<lparr>random = (\<lambda>k. 1 / 2),
     isoDate = (\<lambda>d. ''2025-09-'' @ natToString d),
     today = (\<lambda>k. ''2025-09-24''),
     fetch = (\<lambda>k step. RequestFailed),
     fractionToString = (\<lambda>x. ''0.5''),
     stringToNumber = (\<lambda>s. NaN),
     typeErrorMessage = (\<lambda>what. ''cannot '' @ what),
     inherited = demoInherited,
     engineGet = demoEngineGet,
     engineJSON = demoEngineJSON\<rparr>"

text \<open>The guard \<^verbatim>\<open>weather_data contains 'rain'\<close> and a bag with a weather record.\<close>

definition rainGuard :: string where
  "rainGuard = ''weather_data contains '' @ [CHR 0x27] @ ''rain'' @ [CHR 0x27]"

definition weatherBag :: bag where
  "weatherBag =
     \<lparr>own = [''weather'' \<mapsto> JObj [(''main'', JObj [(''temp'', JNum 28), (''humidity'', JNum 65)])],
             ''weather_data'' \<mapsto> fallbackWeather,
             ''name'' \<mapsto> JStr ''Ali''],
      proto = StandardPrototype\<rparr>"

text \<open>
  Example configurations: a workflow of four well-formed steps, and one with a \<^verbatim>\<open>null\<close>
  entry.
\<close>

definition mkStep :: "string \<Rightarrow> string \<Rightarrow> string \<Rightarrow> string \<Rightarrow> WorkflowStep" where
  "mkStep i t prompt out =
     \<lparr>step_id = i, step_type = t, step_when = None, step_url = None, step_params = JUndefined,
      step_input = JObj [(''prompt'', JStr prompt)], step_output = out\<rparr>"

definition demoWorkflow :: "WorkflowStep list" where
  "demoWorkflow =
     [mkStep ''query_refiner'' ''model_call'' ''Refine: {{inputs.farmer_query}}'' ''refined_query'',
      mkStep ''weather_api'' ''api_call'' [] ''weather_data'',
      mkStep ''allocation_agent'' ''model_call'' ''Plan for {{refined_query}}'' ''allocation_plan'',
      mkStep ''response_formatter'' ''model_call'' ''Answer {{inputs.farmer_query}}'' ''final_answer'']"

definition demoConfig :: AgentConfig where
  "demoConfig = \<lparr>workflow = Some (map Some demoWorkflow)\<rparr>"

text \<open>
  A workflow in which every handler is called and throws: the first four steps carry a
  type that has no handler for their id and leave texts in the bag, one of them under
  the name \<^verbatim>\<open>inputs\<close>; the allocation agent then reads the farmer's query off a text, and
  the response formatter the temperature off a text.
\<close>

definition failingWorkflow :: "WorkflowStep list" where
  "failingWorkflow =
     [mkStep ''weather_api'' ''model_call'' [] ''weather_data'',
      mkStep ''soil_data'' ''api_call'' [] ''soil_data'',
      mkStep ''disease_detection'' ''python'' [] ''disease_report'',
      mkStep ''query_refiner'' ''http'' [] ''inputs'',
      mkStep ''allocation_agent'' ''model_call'' ''Plan'' ''allocation_plan'',
      mkStep ''response_formatter'' ''model_call'' ''Answer'' ''final_answer'']"

definition failingConfig :: AgentConfig where
  "failingConfig = \<lparr>workflow = Some (map Some failingWorkflow)\<rparr>"

definition nullEntryConfig :: AgentConfig where
  "nullEntryConfig = \<lparr>workflow = Some [Some (mkStep ''weather_api'' ''api_call'' [] ''weather_data''), None]\<rparr>"

definition waterQuery :: AgentInput where
  "waterQuery = \<lparr>farmer_query = ''I need water for my 2-acre farm''\<rparr>"

definition fertilizerBag :: bag where
  "fertilizerBag = newBag (JObj [(''farmer_query'', JStr ''khad chahiye'')])"

definition waterBag :: bag where
  "waterBag = newBag (inputsToJs waterQuery)"

text \<open>
  Two calls overlap: the second starts while the first awaits the weather request, and
  the first goes on when its request has settled.
\<close>

definition fertilizerQuery :: AgentInput where
  "fertilizerQuery = \<lparr>farmer_query = ''khad chahiye''\<rparr>"

definition emptyBag :: bag where
  "emptyBag = \<lparr>own = Map.empty, proto = StandardPrototype\<rparr>"

definition overlap :: "turn list" where
  "overlap = [Start 0 waterQuery, Resume 0, Start 1 fertilizerQuery, Resume 1,
              Resume 0, Resume 0, Resume 0]"

text \<open>A guard inside a longer text, and a bag with one binding.\<close>

definition notRainGuard :: string where
  "notRainGuard = ''not weather_data contains '' @ [CHR 0x27] @ ''rain'' @ [CHR 0x27]"

definition bagWith :: "string \<Rightarrow> jsval \<Rightarrow> bag" where
  "bagWith key v = \<lparr>own = [key \<mapsto> v], proto = StandardPrototype\<rparr>"

text \<open>
  A soil sample, a bag that holds it alone, a bag with data of all four kinds, and the
  texts the response formatter assembles for the two.
\<close>

definition soilSampleJs :: jsval where
  "soilSampleJs = JObj [(''date'', JStr ''2025-09-29''), (''time'', JStr ''15:00''),
     (''t0'', JNum 295), (''t10'', JNum 293), (''moisture'', JNum (18 / 100))]"

definition soilBag :: bag where
  "soilBag = assign fertilizerBag ''soil_data'' (JArr [soilSampleJs])"

definition fullBag :: bag where
  "fullBag =
     \<lparr>own = [''inputs'' \<mapsto> inputsToJs waterQuery,
             ''weather_data'' \<mapsto> fallbackWeather,
             ''soil_data'' \<mapsto> JArr [soilSampleJs],
             ''disease_report'' \<mapsto> hd diseases,
             ''allocation_plan'' \<mapsto> getFallbackResult demoHost 0 waterBag ''allocation_agent''],
      proto = StandardPrototype\<rparr>"

definition soilText :: string where
  "soilText = ''Regarding your fertilizer needs, Your soil moisture is at 18%. ''
     @ ''This is on the low side, so consider watering your crops soon. ''"

definition fullText :: string where
  "fullText = ''I understand you need water for your crops. ''
     @ ''Current temperature is 28'' @ [CHR 0xB0] @ ''C with 65% humidity. ''
     @ ''Your soil moisture is at 18%. ''
     @ ''This is on the low side, so consider watering your crops soon. ''
     @ ''I noticed signs of early blight in your crop. ''
     @ ''Your crop shows signs of early blight disease with dark spots on leaves ''
     @ ''My recommendation: apply copper-based fungicide every 7 days and remove affected leaves. ''
     @ ''Regarding your request for resources, I can approve 70% of what you asked for. ''
     @ ''Delivery can be arranged within 3-5 days. ''"

section \<open>The claims\<close>

text \<open>
  C3. Whatever \<^verbatim>\<open>Math.random()\<close> returns (each draw in the interval from 0 to 1, 1
  excluded), \<^verbatim>\<open>generateSoilData\<close> returns exactly 12 samples: two for each of the six days
  from 24 to 29 September, at 09:00 and at 15:00. In every sample \<open>t10 < t0\<close> and the
  moisture lies between 0.18 and 0.26.
\<close>

theorem generateSoilData_samples:
  assumes "\<forall>n. 0 \<le> random h n \<and> random h n < 1"
  shows "length (fst (generateSoilData h k)) = 12
       \<and> map time (fst (generateSoilData h k)) = concat (replicate 6 [''09:00'', ''15:00''])
       \<and> map date (fst (generateSoilData h k))
           = concat (map (\<lambda>d. [isoDate h d, isoDate h d]) [24..<30])
       \<and> (\<forall>s \<in> set (fst (generateSoilData h k)).
             t10 s < t0 s \<and> 18 / 100 \<le> moisture s \<and> moisture s \<le> 26 / 100)"
proof -
  have rep6: "replicate 6 x = [x, x, x, x, x, x]" for x :: "string list"
    by (simp add: numeral_eq_Suc)
  have upt30: "[24..<30] = [24, 25, 26, 27, 28, 29::nat]"
    by (simp add: upt_rec)
  have len: "length (fst (generateSoilData h k)) = 12"
    by (simp add: generateSoilData_unfold)
  have times: "map time (fst (generateSoilData h k)) = concat (replicate 6 [''09:00'', ''15:00''])"
    by (simp add: generateSoilData_unfold rep6 time_of_soilSample)
  have dates: "map date (fst (generateSoilData h k))
      = concat (map (\<lambda>d. [isoDate h d, isoDate h d]) [24..<30])"
    by (simp add: generateSoilData_unfold upt30 date_of_soilSample)
  have each: "t10 s < t0 s \<and> 18 / 100 \<le> moisture s \<and> moisture s \<le> 26 / 100"
    if "s \<in> set (fst (generateSoilData h k))" for s
  proof -
    from that obtain d hr j where s: "s = fst (soilSample h d hr j)"
      by (auto simp: generateSoilData_unfold)
    show ?thesis
      unfolding s using assms t10_below_t0 [of h j d hr] moisture_range [of h j d hr]
      by blast
  qed
  show ?thesis
    using len times dates each by blast
qed

theorem generateSoilData_samples_witness:
  "(\<forall>n. 0 \<le> random demoHost n \<and> random demoHost n < 1)
   \<and> length (fst (generateSoilData demoHost 0)) = 12
   \<and> hd (fst (generateSoilData demoHost 0))
       = \<lparr>date = ''2025-09-24'', time = ''09:00'', t0 = 593 / 2, t10 = 1177 / 4, moisture = 11 / 50\<rparr>
   \<and> list_all (\<lambda>s. t10 s < t0 s \<and> 18 / 100 \<le> moisture s \<and> moisture s \<le> 26 / 100)
        (fst (generateSoilData demoHost 0))"
proof -
  have draws: "\<forall>n. 0 \<le> random demoHost n \<and> random demoHost n < 1"
    by (simp add: demoHost_def)
  have first: "hd (fst (generateSoilData demoHost 0))
      = \<lparr>date = ''2025-09-24'', time = ''09:00'', t0 = 593 / 2, t10 = 1177 / 4, moisture = 11 / 50\<rparr>"
    by (simp add: generateSoilData_unfold soilSample_def Let_def Math_round_def
        demoHost_def padStart_def natToString.simps digitChar_def floor_rat_div_numeral)
  show ?thesis
    using draws first generateSoilData_samples [OF draws, of 0]
    by (simp add: list_all_iff)
qed

text \<open>
  C4, as the claim states it, fails: the text \<^verbatim>\<open>not weather_data contains 'rain'\<close> is no
  guard of the grammar \<^verbatim>\<open>identifier contains 'literal'\<close>, for which the claim has the guard
  true; yet \<^verbatim>\<open>evaluateCondition\<close> finds the guard \<^verbatim>\<open>weather_data contains 'rain'\<close> inside it
  and returns false on a bag whose \<^verbatim>\<open>weather_data\<close> is \<^verbatim>\<open>clear sky\<close>.
\<close>

theorem guard_inside_text_counterexample:
  "\<not> inGrammar notRainGuard
   \<and> \<not> evaluateCondition (bagWith ''weather_data'' (JStr ''clear sky'')) notRainGuard"
proof -
  have "guardAt notRainGuard = None"
    by (simp add: guardAt_def notRainGuard_def isWord_def isSpace_def toLowerCase_def
        lowerChar_def upperLetters_def lowerLetters_def)
  then have "\<not> inGrammar notRainGuard"
    unfolding inGrammar_def using guardAt_isGuard [of notRainGuard _ _ "[]"] by auto
  moreover have "\<not> evaluateCondition (bagWith ''weather_data'' (JStr ''clear sky'')) notRainGuard"
    by code_simp
  ultimately show ?thesis by blast
qed

text \<open>
  C4, amended. \<^verbatim>\<open>evaluateCondition\<close> does not ask whether the guard as a whole is of the
  grammar: it looks for the word \<^verbatim>\<open>contains\<close> in small letters anywhere in the guard, and
  then for the leftmost text in it that is a guard of the grammar (the word \<^verbatim>\<open>contains\<close>
  of that text in any mix of cases). It returns true exactly when that guard's
  identifier reads as a string that holds the literal, both taken to small letters, or
  reads as no string (an unbound name reads as \<^verbatim>\<open>undefined\<close>), or when the text holds no
  such guard; so it returns false only when the identifier reads as a string without the
  literal. The text holds at most one first guard, and a text that is a guard of the
  grammar with \<^verbatim>\<open>contains\<close> in small letters is its own first guard.
\<close>

theorem evaluateCondition_first_guard:
  "(evaluateCondition b c \<longleftrightarrow>
       (\<exists>x lit v. holdsGuard c x lit \<and> lookup b x = JStr v
            \<and> (\<exists>a z. toLowerCase v = a @ toLowerCase lit @ z))
     \<or> (\<exists>x lit. holdsGuard c x lit \<and> (\<forall>v. lookup b x \<noteq> JStr v))
     \<or> (\<forall>x lit. \<not> holdsGuard c x lit))
   \<and> (\<forall>x lit x' lit'. holdsGuard c x lit \<and> holdsGuard c x' lit' \<longrightarrow> x = x' \<and> lit = lit')
   \<and> (\<forall>x lit. isGuard c x lit \<and> (\<exists>a z. c = a @ ''contains'' @ z) \<longrightarrow> holdsGuard c x lit)"
proof (intro conjI allI impI)
  show "evaluateCondition b c \<longleftrightarrow>
       (\<exists>x lit v. holdsGuard c x lit \<and> lookup b x = JStr v
            \<and> (\<exists>a z. toLowerCase v = a @ toLowerCase lit @ z))
     \<or> (\<exists>x lit. holdsGuard c x lit \<and> (\<forall>v. lookup b x \<noteq> JStr v))
     \<or> (\<forall>x lit. \<not> holdsGuard c x lit)"
  proof (cases "includesStr c ''contains''")
    case False
    then show ?thesis by (simp add: evaluateCondition_def holdsGuard_iff)
  next
    case inc: True
    show ?thesis
    proof (cases "guardSearch c")
      case None
      then show ?thesis by (simp add: evaluateCondition_def holdsGuard_iff)
    next
      case (Some p)
      obtain x lit where p: "p = (x, lit)" by (cases p)
      have hg: "holdsGuard c y l \<longleftrightarrow> y = x \<and> l = lit" for y l
        using inc Some p by (auto simp: holdsGuard_iff)
      show ?thesis
        using inc Some p
        by (cases "lookup b x") (simp_all add: evaluateCondition_def hg includesStr_iff)
    qed
  qed
next
  fix x lit x' lit' assume "holdsGuard c x lit \<and> holdsGuard c x' lit'"
  then show "x = x'" "lit = lit'" by (auto simp: holdsGuard_iff)
next
  fix x lit assume a: "isGuard c x lit \<and> (\<exists>a z. c = a @ ''contains'' @ z)"
  then have "isGuard c x lit" by blast
  then have "guardSearch (c @ []) = Some (x, lit)" by (rule guardSearch_isGuard)
  with a show "holdsGuard c x lit" by (simp add: holdsGuard_iff includesStr_iff)
qed

theorem evaluateCondition_first_guard_witness:
  "holdsGuard rainGuard ''weather_data'' ''rain''
   \<and> holdsGuard notRainGuard ''weather_data'' ''rain''
   \<and> evaluateCondition (bagWith ''weather_data'' (JStr ''Light RAIN at night'')) rainGuard
   \<and> \<not> evaluateCondition (bagWith ''weather_data'' (JStr ''clear sky'')) rainGuard
   \<and> evaluateCondition (bagWith ''soil_data'' (JStr ''clear sky'')) rainGuard
   \<and> evaluateCondition (bagWith ''weather_data'' (JNum 3)) rainGuard
   \<and> evaluateCondition (bagWith ''weather_data'' (JStr ''clear sky'')) ''weather_data has rain''
   \<and> \<not> evaluateCondition (bagWith ''weather_data'' (JStr ''clear sky'')) notRainGuard"
proof -
  have g: "isGuard rainGuard ''weather_data'' ''rain''
      \<and> (\<exists>a z. rainGuard = a @ ''contains'' @ z)"
  proof
    have "rainGuard = ''weather_data'' @ '' '' @ ''contains'' @ '' '' @ [CHR 0x27] @ ''rain'' @ [CHR 0x27]"
      by (simp add: rainGuard_def)
    moreover have "list_all isWord ''weather_data''" "list_all isSpace '' ''"
      "toLowerCase ''contains'' = ''contains''"
      by (simp_all add: isWord_def isSpace_def toLowerCase_def lowerChar_def upperLetters_def
          lowerLetters_def)
    ultimately show "isGuard rainGuard ''weather_data'' ''rain''"
      unfolding isGuard_def by (intro exI [of _ "'' ''"] exI [of _ "''contains''"]) simp
    have "rainGuard = ''weather_data '' @ ''contains'' @ ('' '' @ [CHR 0x27] @ ''rain'' @ [CHR 0x27])"
      by (simp add: rainGuard_def)
    then show "\<exists>a z. rainGuard = a @ ''contains'' @ z" by blast
  qed
  have m: "holdsGuard rainGuard ''weather_data'' ''rain''"
    using evaluateCondition_first_guard [of _ rainGuard] g by blast
  have u: "holdsGuard rainGuard x lit \<longleftrightarrow> x = ''weather_data'' \<and> lit = ''rain''" for x lit
    using evaluateCondition_first_guard [of _ rainGuard] m by blast
  have m2: "holdsGuard notRainGuard ''weather_data'' ''rain''"
    unfolding holdsGuard_iff by code_simp
  have u2: "holdsGuard notRainGuard x lit \<longleftrightarrow> x = ''weather_data'' \<and> lit = ''rain''" for x lit
    using evaluateCondition_first_guard [of _ notRainGuard] m2 by blast
  have n: "\<not> holdsGuard ''weather_data has rain'' x lit" for x lit
    by (simp add: holdsGuard_iff)
  have lc: "toLowerCase ''Light RAIN at night'' = ''light rain at night''"
      "toLowerCase ''clear sky'' = ''clear sky''" "toLowerCase ''rain'' = ''rain''"
    by (simp_all add: toLowerCase_def lowerChar_def upperLetters_def lowerLetters_def)
  have yes: "\<exists>a z. toLowerCase ''Light RAIN at night'' = a @ toLowerCase ''rain'' @ z"
    using includesStr_iff [of "''light rain at night''" "''rain''"] by (simp add: lc)
  have no: "\<not> (\<exists>a z. toLowerCase ''clear sky'' = a @ toLowerCase ''rain'' @ z)"
    using includesStr_iff [of "''clear sky''" "''rain''"] by (simp add: lc)
  have 1: "evaluateCondition (bagWith ''weather_data'' (JStr ''Light RAIN at night'')) rainGuard"
    using evaluateCondition_first_guard
      [of "bagWith ''weather_data'' (JStr ''Light RAIN at night'')" rainGuard, THEN conjunct1] yes
    by (simp add: u bagWith_def lookup_def)
  have 2: "\<not> evaluateCondition (bagWith ''weather_data'' (JStr ''clear sky'')) rainGuard"
    using evaluateCondition_first_guard
      [of "bagWith ''weather_data'' (JStr ''clear sky'')" rainGuard, THEN conjunct1] no
    by (simp add: u bagWith_def lookup_def)
  have 3: "evaluateCondition (bagWith ''soil_data'' (JStr ''clear sky'')) rainGuard"
    using evaluateCondition_first_guard
      [of "bagWith ''soil_data'' (JStr ''clear sky'')" rainGuard, THEN conjunct1]
    by (simp add: u bagWith_def lookup_def)
  have 4: "evaluateCondition (bagWith ''weather_data'' (JNum 3)) rainGuard"
    using evaluateCondition_first_guard
      [of "bagWith ''weather_data'' (JNum 3)" rainGuard, THEN conjunct1]
    by (simp add: u bagWith_def lookup_def)
  have 5: "evaluateCondition (bagWith ''weather_data'' (JStr ''clear sky'')) ''weather_data has rain''"
    using evaluateCondition_first_guard
      [of "bagWith ''weather_data'' (JStr ''clear sky'')" "''weather_data has rain''", THEN conjunct1]
    by (simp add: n)
  have 6: "\<not> evaluateCondition (bagWith ''weather_data'' (JStr ''clear sky'')) notRainGuard"
    using evaluateCondition_first_guard
      [of "bagWith ''weather_data'' (JStr ''clear sky'')" notRainGuard, THEN conjunct1] no
    by (simp add: u2 bagWith_def lookup_def)
  from m m2 1 2 3 4 5 6 show ?thesis by (intro conjI)
qed

text \<open>
  C5, as the claim states it, fails. In the bag of a call, the path
  \<^verbatim>\<open>inputs.farmer_query.trim\<close> leads to a method of the string: a value that is no string
  and not \<^verbatim>\<open>undefined\<close>, and that has no JSON text; its placeholder stays as it is. And the
  path \<^verbatim>\<open>constructor.name\<close> starts at a name that the bag does not bind, yet its
  placeholder gives way to the text \<^verbatim>\<open>Object\<close>. So whether or not the claim counts what a
  value inherits among the bound values, one of the two placeholders is not treated as
  it says.
\<close>

theorem placeholder_inherited_counterexample:
  "resolvePath demoHost waterBag [''inputs'', ''farmer_query'', ''trim''] = Inr (Engine 4)
   \<and> interpolateTemplate demoHost waterBag ''{{inputs.farmer_query.trim}}''
       = Inr ''{{inputs.farmer_query.trim}}''
   \<and> own waterBag ''constructor'' = None
   \<and> interpolateTemplate demoHost waterBag ''{{constructor.name}}'' = Inr ''Object''"
  by code_simp

text \<open>
  C5, amended. In a template, the leftmost placeholder \<open>m\<close> with path \<open>path\<close> gives way to
  what the callback returns for it, the text before it stays and the text after it is
  interpolated in the same way; an exception of the callback is the exception of the
  interpolation. The path is walked from the bag, key by key, and every step is a plain
  property read: an own property of the value reached so far (a binding of the bag, a
  property of an object, an element of an array under the decimal form of its index) or,
  if there is none, what the value inherits. The replacement is the value itself when
  the walk ends in a string; the JSON text of the value when it is no string and has a
  JSON text that is not empty; and the placeholder \<open>m\<close> unchanged when the walk ends in
  \<^verbatim>\<open>undefined\<close> or in a value without JSON text (a function). The walk ends in
  \<^verbatim>\<open>undefined\<close> as soon as one of its steps gives \<^verbatim>\<open>undefined\<close> or \<^verbatim>\<open>null\<close>. Every value of
  the data model but \<^verbatim>\<open>undefined\<close> has a JSON text.
\<close>

theorem interpolateTemplate_placeholder:
  assumes "isPlaceholder m path"
    and "\<not> (\<exists>p1 m1 path1 post1. length p1 < length pre \<and> pre @ m @ post = p1 @ m1 @ post1
            \<and> isPlaceholder m1 path1)"
  shows "interpolateTemplate h b (pre @ m @ post)
           = appendE (Inr pre) (appendE (substitute h b m path) (interpolateTemplate h b post))
       \<and> (let r = resolvePath h b (splitOn (CHR ''.'') (trim path)) in
            (\<forall>e. r = Inl e \<longrightarrow> substitute h b m path = Inl e)
          \<and> (\<forall>s. r = Inr (Data (JStr s)) \<longrightarrow> substitute h b m path = Inr s)
          \<and> (r = Inr (Data JUndefined) \<longrightarrow> substitute h b m path = Inr m)
          \<and> (\<forall>v j. r = Inr (Data v) \<and> (\<forall>s. v \<noteq> JStr s) \<and> JSON_stringify h v = Some j \<and> j \<noteq> []
               \<longrightarrow> substitute h b m path = Inr j)
          \<and> (\<forall>n j. r = Inr (Engine n) \<and> engineJSON h n = Inr (Some j) \<and> j \<noteq> []
               \<longrightarrow> substitute h b m path = Inr j)
          \<and> (\<forall>n. r = Inr (Engine n) \<and> engineJSON h n = Inr None
               \<longrightarrow> substitute h b m path = Inr m)
          \<and> (\<forall>n e. r = Inr (Engine n) \<and> engineJSON h n = Inl e
               \<longrightarrow> substitute h b m path = Inl e))
       \<and> (\<forall>v. v \<noteq> JUndefined \<longrightarrow> (\<exists>j. JSON_stringify h v = Some j))
       \<and> (\<forall>key keys. resolvePath h b (key # keys) = walk h (readBag h b key) keys)
       \<and> (\<forall>keys key. keys \<noteq> [] \<longrightarrow> resolvePath h b (keys @ [key])
             = (case resolvePath h b keys of Inl e \<Rightarrow> Inl e | Inr r \<Rightarrow> readReached h r key))
       \<and> (\<forall>keys keys2. keys \<noteq> [] \<and> resolvePath h b keys = Inr (Data JUndefined)
            \<longrightarrow> resolvePath h b (keys @ keys2) = Inr (Data JUndefined))
       \<and> (\<forall>key v. own b key = Some v \<longrightarrow> readBag h b key = Inr (Data v))
       \<and> (\<forall>ps key v. map_of ps key = Some v \<longrightarrow> readReached h (Data (JObj ps)) key = Inr (Data v))
       \<and> (\<forall>xs i. i < length xs \<longrightarrow>
             readReached h (Data (JArr xs)) (natToString i) = Inr (Data (xs ! i)))
       \<and> (\<forall>key. readReached h (Data JUndefined) key = Inr (Data JUndefined)
               \<and> readReached h (Data JNull) key = Inr (Data JUndefined))"
proof (intro conjI)
  show "interpolateTemplate h b (pre @ m @ post)
      = appendE (Inr pre) (appendE (substitute h b m path) (interpolateTemplate h b post))"
    using assms by (rule interpolate_first)
next
  show "let r = resolvePath h b (splitOn (CHR ''.'') (trim path)) in
            (\<forall>e. r = Inl e \<longrightarrow> substitute h b m path = Inl e)
          \<and> (\<forall>s. r = Inr (Data (JStr s)) \<longrightarrow> substitute h b m path = Inr s)
          \<and> (r = Inr (Data JUndefined) \<longrightarrow> substitute h b m path = Inr m)
          \<and> (\<forall>v j. r = Inr (Data v) \<and> (\<forall>s. v \<noteq> JStr s) \<and> JSON_stringify h v = Some j \<and> j \<noteq> []
               \<longrightarrow> substitute h b m path = Inr j)
          \<and> (\<forall>n j. r = Inr (Engine n) \<and> engineJSON h n = Inr (Some j) \<and> j \<noteq> []
               \<longrightarrow> substitute h b m path = Inr j)
          \<and> (\<forall>n. r = Inr (Engine n) \<and> engineJSON h n = Inr None
               \<longrightarrow> substitute h b m path = Inr m)
          \<and> (\<forall>n e. r = Inr (Engine n) \<and> engineJSON h n = Inl e
               \<longrightarrow> substitute h b m path = Inl e)"
    unfolding Let_def
  proof (intro conjI allI impI)
    fix v j
    assume a: "resolvePath h b (splitOn (CHR ''.'') (trim path)) = Inr (Data v)
        \<and> (\<forall>s. v \<noteq> JStr s) \<and> JSON_stringify h v = Some j \<and> j \<noteq> []"
    then show "substitute h b m path = Inr j"
      by (cases v) (simp_all add: substitute_cases orMatch_def)
  qed (simp_all add: substitute_cases orMatch_def)
next
  show "\<forall>v. v \<noteq> JUndefined \<longrightarrow> (\<exists>j. JSON_stringify h v = Some j)"
    using JSON_stringify_None [of h] by (metis option.exhaust)
next
  show "\<forall>key keys. resolvePath h b (key # keys) = walk h (readBag h b key) keys"
    by simp
next
  show "\<forall>keys key. keys \<noteq> [] \<longrightarrow> resolvePath h b (keys @ [key])
             = (case resolvePath h b keys of Inl e \<Rightarrow> Inl e | Inr r \<Rightarrow> readReached h r key)"
    by (simp add: resolvePath_last)
next
  show "\<forall>keys keys2. keys \<noteq> [] \<and> resolvePath h b keys = Inr (Data JUndefined)
            \<longrightarrow> resolvePath h b (keys @ keys2) = Inr (Data JUndefined)"
    by (simp add: resolvePath_undefined_step)
next
  show "\<forall>key v. own b key = Some v \<longrightarrow> readBag h b key = Inr (Data v)"
    by (simp add: readBag_def)
next
  show "\<forall>ps key v. map_of ps key = Some v \<longrightarrow> readReached h (Data (JObj ps)) key = Inr (Data v)"
    by (simp add: readReached_def readData_def)
next
  show "\<forall>xs i. i < length xs \<longrightarrow>
             readReached h (Data (JArr xs)) (natToString i) = Inr (Data (xs ! i))"
    by (simp add: readReached_def readData_def hasOwn_index getProp_index del: hasOwn.simps getProp.simps)
next
  show "\<forall>key. readReached h (Data JUndefined) key = Inr (Data JUndefined)
               \<and> readReached h (Data JNull) key = Inr (Data JUndefined)"
    by (simp add: readReached_def readData_def)
qed

theorem interpolateTemplate_placeholder_witness:
  "isPlaceholder ''{{weather.main.temp}}'' ''weather.main.temp''
   \<and> interpolateTemplate demoHost weatherBag ''Temp: {{weather.main.temp}} for {{ name }}, {{soil.0.t0}}''
       = Inr ''Temp: 28 for Ali, {{soil.0.t0}}''
   \<and> interpolateTemplate demoHost weatherBag ''{{weather.main}}''
       = Inr (''{'' @ [CHR 0x22] @ ''temp'' @ [CHR 0x22] @ '':28,'' @ [CHR 0x22] @ ''humidity''
              @ [CHR 0x22] @ '':65}'')
   \<and> interpolateTemplate demoHost weatherBag ''Sky: {{weather_data.weather.0.description}}''
       = Inr ''Sky: clear sky''
   \<and> interpolateTemplate demoHost weatherBag ''{{toString}} and {{__proto__}}''
       = Inr ''{{toString}} and {}''
   \<and> interpolateTemplate demoHost weatherBag ''{{constructor.caller}}''
       = Inl (TypeError ''cannot read caller'')"
proof -
  have i: "isPlaceholder ''{{weather.main.temp}}'' ''weather.main.temp''"
    by (simp add: isPlaceholder_def)
  have n: "\<not> (\<exists>p1 m1 path1 post1. length p1 < length ''Temp: ''
      \<and> ''Temp: '' @ ''{{weather.main.temp}}'' @ '' for {{ name }}, {{soil.0.t0}}'' = p1 @ m1 @ post1
      \<and> isPlaceholder m1 path1)"
    by (rule no_brace_no_placeholder) simp
  have s: "substitute demoHost weatherBag ''{{weather.main.temp}}'' ''weather.main.temp'' = Inr ''28''"
    by code_simp
  have rest: "interpolateTemplate demoHost weatherBag '' for {{ name }}, {{soil.0.t0}}''
      = Inr '' for Ali, {{soil.0.t0}}''"
    by code_simp
  have 1: "interpolateTemplate demoHost weatherBag ''Temp: {{weather.main.temp}} for {{ name }}, {{soil.0.t0}}''
       = Inr ''Temp: 28 for Ali, {{soil.0.t0}}''"
    using interpolateTemplate_placeholder [OF i n, of demoHost weatherBag, THEN conjunct1]
    by (simp add: s rest)
  have 2: "interpolateTemplate demoHost weatherBag ''{{weather.main}}''
       = Inr (''{'' @ [CHR 0x22] @ ''temp'' @ [CHR 0x22] @ '':28,'' @ [CHR 0x22] @ ''humidity''
              @ [CHR 0x22] @ '':65}'')"
    by code_simp
  have 3: "interpolateTemplate demoHost weatherBag ''Sky: {{weather_data.weather.0.description}}''
       = Inr ''Sky: clear sky''"
    by code_simp
  have 4: "interpolateTemplate demoHost weatherBag ''{{toString}} and {{__proto__}}''
       = Inr ''{{toString}} and {}''"
    by code_simp
  have 5: "interpolateTemplate demoHost weatherBag ''{{constructor.caller}}''
       = Inl (TypeError ''cannot read caller'')"
    by code_simp
  from i 1 2 3 4 5 show ?thesis by (intro conjI)
qed

text \<open>
  C10. A template in which no placeholder occurs is returned unchanged, whatever the bag
  holds.
\<close>

theorem interpolateTemplate_no_placeholder:
  assumes "\<not> (\<exists>pre m path post. template = pre @ m @ post \<and> isPlaceholder m path)"
  shows "interpolateTemplate h b template = Inr template"
  unfolding interpolateTemplate_def
proof (rule replacePlaceholders_id)
  fix pre s' assume t: "template = pre @ s'"
  show "placeholderAt s' = None"
  proof (rule placeholderAt_NoneI, rule notI)
    assume "\<exists>m path r. s' = m @ r \<and> isPlaceholder m path"
    then obtain m path r where "s' = m @ r" "isPlaceholder m path" by blast
    with t have "template = pre @ m @ r \<and> isPlaceholder m path" by simp
    with assms show False by blast
  qed
qed

theorem interpolateTemplate_no_placeholder_witness:
  "\<not> (\<exists>pre m path post. ''Give {2} acres {{}} of {{a}b}} water }}'' = pre @ m @ post \<and> isPlaceholder m path)
   \<and> interpolateTemplate demoHost (newBag (JStr ''x'')) ''Give {2} acres {{}} of {{a}b}} water }}''
       = Inr ''Give {2} acres {{}} of {{a}b}} water }}''"
proof -
  have n: "\<not> (\<exists>pre m path post. ''Give {2} acres {{}} of {{a}b}} water }}'' = pre @ m @ post \<and> isPlaceholder m path)"
    unfolding hasPlaceholder_code by (simp add: placeholderAt_def)
  show ?thesis
    using n interpolateTemplate_no_placeholder [OF n, of demoHost "newBag (JStr ''x'')"]
    by blast
qed

text \<open>
  C1. The claim does not hold of the code. For a configuration that is an object,
  \<^verbatim>\<open>execute\<close> returns a response, whatever the workflow and the input. But when the stored
  configuration is \<^verbatim>\<open>undefined\<close> or \<^verbatim>\<open>null\<close> (the YAML document is empty, or is \<^verbatim>\<open>null\<close>),
  the read of \<^verbatim>\<open>this.config.workflow\<close> throws inside the outer \<^verbatim>\<open>try\<close> block, the outer
  \<^verbatim>\<open>catch\<close> block calls \<^verbatim>\<open>getFallbackResult\<close>, whose first statement reads
  \<^verbatim>\<open>this.config.fallbacks\<close>, and that exception reaches the caller.
\<close>

theorem execute_throws_without_configuration:
  "execute h ConfigUndefined inputs
     = Inl (TypeError (typeErrorMessage h ''read fallbacks of undefined''))
   \<and> execute h ConfigNull inputs
     = Inl (TypeError (typeErrorMessage h ''read fallbacks of null''))
   \<and> execute demoHost ConfigUndefined waterQuery
     = Inl (TypeError ''cannot read fallbacks of undefined'')
   \<and> (\<exists>r. execute h (ConfigObject config) inputs = Inr r)"
proof (intro conjI)
  obtain b k res x where body: "executeBody h config inputs = ((b, k, res), x)"
    by (metis prod.exhaust)
  then show "\<exists>r. execute h (ConfigObject config) inputs = Inr r"
    by (cases x) (simp_all add: execute_ConfigObject)
qed (simp_all add: execute_def tryBlock_def readFallbacks_def initialState_def demoHost_def)




text \<open>
  C6. If every weather request fails (a transport error or a response that is not ok),
  then \<^verbatim>\<open>getWeatherData\<close> returns the fixed record, and for a workflow without \<^verbatim>\<open>null\<close>
  entries that has a step \<^verbatim>\<open>weather_api\<close> of type \<^verbatim>\<open>api_call\<close> which is not skipped, the
  \<^verbatim>\<open>weather\<close> field of the response is exactly that record: temperature 28, humidity 65,
  pressure 1013, description \<^verbatim>\<open>clear sky\<close>, wind speed 3.5.
\<close>

theorem weather_fallback_on_failure:
  assumes "workflow config = Some (pre @ Some step # post)"
    and "None \<notin> set pre" and "None \<notin> set post"
    and "step_id step = ''weather_api''" and "step_type step = ''api_call''"
    and "\<forall>bg. \<not> skipped bg step"
    and "\<forall>k s. fetchFails (fetch h k s)"
  shows "(\<forall>k. getWeatherData h k step = (fallbackWeather, k + 1))
       \<and> (\<exists>r. execute h (ConfigObject config) inputs = Inr r \<and> success r
              \<and> weather r = Some (JObj
                  [(''main'', JObj [(''temp'', JNum 28), (''humidity'', JNum 65),
                                    (''pressure'', JNum 1013)]),
                   (''weather'', JArr [JObj [(''main'', JStr ''Clear''),
                                             (''description'', JStr ''clear sky'')]]),
                   (''wind'', JObj [(''speed'', JNum (35 / 10))])]))"
proof (intro conjI allI)
  fix k show "getWeatherData h k step = (fallbackWeather, k + 1)"
    using assms(7) by (simp add: getWeatherData_fails)
next
  let ?st0 = "(newBag (inputsToJs inputs), 0::nat, emptyResponse)"
  obtain b1 k1 res1 x1 where pre: "runWorkflow h ?st0 pre = ((b1, k1, res1), x1)"
    by (metis prod.exhaust)
  have x1: "x1 = None"
    using runWorkflow_no_null [OF assms(2), of h ?st0] pre by simp
  have s1: "success res1 \<and> error res1 = None"
    using runWorkflow_success [OF pre] by (simp add: emptyResponse_def)
  have gw: "getWeatherData h k1 step = (fallbackWeather, k1 + 1)"
    using assms(7) by (simp add: getWeatherData_fails)
  have step: "runStep h (b1, k1, res1) (Some step)
      = Inr (assign b1 (step_output step) fallbackWeather, k1 + 1,
             res1\<lparr>weather := Some fallbackWeather\<rparr>)"
    using assms(4,5,6) gw
    by (simp add: runStep_def executeStep_def executeApiCall_def stepSucceeded_def storeResult_def)
  obtain b2 k2 res2 x2 where post:
    "runWorkflow h (assign b1 (step_output step) fallbackWeather, k1 + 1,
        res1\<lparr>weather := Some fallbackWeather\<rparr>) post = ((b2, k2, res2), x2)"
    by (metis prod.exhaust)
  have x2: "x2 = None"
    using runWorkflow_no_null [OF assms(3)] post by (metis snd_conv)
  have w2: "weather res2 = Some fallbackWeather"
    using runWorkflow_weather_inv [OF assms(7) assms(3) _ post] by simp
  have s2: "success res2"
    using runWorkflow_success [OF post] s1 by simp
  have "executeBody h config inputs = ((b2, k2, res2), None)"
    using assms(1) pre x1 step post x2
    by (simp add: executeBody_def initialState_def runWorkflow_append)
  then have "execute h (ConfigObject config) inputs = Inr res2"
    by (simp add: execute_ConfigObject)
  with w2 s2 show "\<exists>r. execute h (ConfigObject config) inputs = Inr r \<and> success r
              \<and> weather r = Some (JObj
                  [(''main'', JObj [(''temp'', JNum 28), (''humidity'', JNum 65),
                                    (''pressure'', JNum 1013)]),
                   (''weather'', JArr [JObj [(''main'', JStr ''Clear''),
                                             (''description'', JStr ''clear sky'')]]),
                   (''wind'', JObj [(''speed'', JNum (35 / 10))])])"
    by (simp add: fallbackWeather_def)
qed

theorem weather_fallback_on_failure_witness:
  "(\<forall>k s. fetchFails (fetch demoHost k s))
   \<and> (\<forall>bg. \<not> skipped bg (mkStep ''weather_api'' ''api_call'' [] ''weather_data''))
   \<and> getWeatherData demoHost 0 (mkStep ''weather_api'' ''api_call'' [] ''weather_data'')
       = (fallbackWeather, 1)
   \<and> (\<exists>r. execute demoHost (ConfigObject demoConfig) waterQuery = Inr r \<and> success r
         \<and> weather r = Some fallbackWeather)"
proof -
  let ?w = "mkStep ''weather_api'' ''api_call'' [] ''weather_data''"
  let ?pre = "[Some (mkStep ''query_refiner'' ''model_call'' ''Refine: {{inputs.farmer_query}}''
      ''refined_query'')]"
  let ?post = "[Some (mkStep ''allocation_agent'' ''model_call'' ''Plan for {{refined_query}}''
      ''allocation_plan''),
    Some (mkStep ''response_formatter'' ''model_call'' ''Answer {{inputs.farmer_query}}''
      ''final_answer'')]"
  have c: "workflow demoConfig = Some (?pre @ Some ?w # ?post)"
    by (simp add: demoConfig_def demoWorkflow_def)
  have n: "None \<notin> set ?pre" "None \<notin> set ?post" by simp_all
  have i: "step_id ?w = ''weather_api''" "step_type ?w = ''api_call''"
    by (simp_all add: mkStep_def)
  have g: "\<forall>bg. \<not> skipped bg ?w"
    by (simp add: skipped_def mkStep_def)
  have f: "\<forall>k s. fetchFails (fetch demoHost k s)"
    by (simp add: fetchFails_def demoHost_def)
  show ?thesis
    using weather_fallback_on_failure [OF c n i g f, of waterQuery] f g
    by (simp add: fallbackWeather_def)
qed

text \<open>
  C8, as the claim states it, fails: the fallback value of the step \<^verbatim>\<open>allocation_agent\<close>
  holds the farmer's query of the running call, so two calls with different inputs get
  different fallback values.
\<close>

theorem fallback_depends_on_inputs:
  "getProp (getFallbackResult demoHost 0 waterBag ''allocation_agent'') ''request''
     = JStr ''I need water for my 2-acre farm''
   \<and> getProp (getFallbackResult demoHost 0 fertilizerBag ''allocation_agent'') ''request''
     = JStr ''khad chahiye''
   \<and> getFallbackResult demoHost 0 waterBag ''allocation_agent''
     \<noteq> getFallbackResult demoHost 0 fertilizerBag ''allocation_agent''"
  by (simp add: getFallbackResult_def waterBag_def fertilizerBag_def waterQuery_def inputsToJs_def
      newBag_def lookup_def optGet_def nullish_def orElse_def truthy_def)

text \<open>
  C8, amended. The fallback value of every step other than \<^verbatim>\<open>soil_data\<close> and
  \<^verbatim>\<open>allocation_agent\<close> is the same in every state. The one of \<^verbatim>\<open>soil_data\<close> is fixed but for
  its \<^verbatim>\<open>date\<close>, which is the current date; the one of \<^verbatim>\<open>allocation_agent\<close> is fixed but for
  its \<^verbatim>\<open>request\<close>, which is the farmer's query of the call (or \<^verbatim>\<open>Resource request\<close> when
  there is none).
\<close>

theorem fallback_fixed_parts:
  "(stepId \<noteq> ''soil_data'' \<and> stepId \<noteq> ''allocation_agent''
      \<longrightarrow> getFallbackResult h k b stepId = getFallbackResult h' k' b' stepId)
   \<and> (today h k = today h' k'
      \<longrightarrow> getFallbackResult h k b ''soil_data'' = getFallbackResult h' k' b' ''soil_data'')
   \<and> (optGet (lookup b ''inputs'') ''farmer_query'' = optGet (lookup b' ''inputs'') ''farmer_query''
      \<longrightarrow> getFallbackResult h k b ''allocation_agent'' = getFallbackResult h' k' b' ''allocation_agent'')
   \<and> getFallbackResult h k b ''soil_data''
       = JArr [JObj [(''date'', JStr (today h k)), (''time'', JStr ''09:00''),
                     (''t0'', JNum 295), (''t10'', JNum 293), (''moisture'', JNum (20 / 100))]]
   \<and> getProp (getFallbackResult h k b ''allocation_agent'') ''request''
       = orElse (optGet (lookup b ''inputs'') ''farmer_query'') (JStr ''Resource request'')"
  by (simp add: getFallbackResult_def)

theorem fallback_fixed_parts_witness:
  "getFallbackResult demoHost 0 waterBag ''weather_api''
     = getFallbackResult (demoHost\<lparr>today := (\<lambda>k. ''2026-01-01'')\<rparr>) 7 fertilizerBag ''weather_api''
   \<and> getFallbackResult demoHost 0 waterBag ''weather_api''
     = JStr ''Weather conditions are moderate. Check local forecasts for rain.''
   \<and> getFallbackResult demoHost 0 waterBag ''soil_data''
     = getFallbackResult demoHost 3 fertilizerBag ''soil_data''
   \<and> getFallbackResult demoHost 0 waterBag ''allocation_agent''
     = getFallbackResult demoHost 5 (assign waterBag ''weather_data'' JNull) ''allocation_agent''"
proof -
  have 1: "''weather_api'' \<noteq> ''soil_data'' \<and> ''weather_api'' \<noteq> ''allocation_agent''" by simp
  have 2: "today demoHost 0 = today demoHost 3" by (simp add: demoHost_def)
  have 3: "optGet (lookup waterBag ''inputs'') ''farmer_query''
      = optGet (lookup (assign waterBag ''weather_data'' JNull) ''inputs'') ''farmer_query''"
    by (simp add: lookup_def assign_def waterBag_def newBag_def)
  have 4: "getFallbackResult demoHost 0 waterBag ''weather_api''
     = JStr ''Weather conditions are moderate. Check local forecasts for rain.''"
    by (simp add: getFallbackResult_def)
  have a: "getFallbackResult demoHost 0 waterBag ''weather_api''
     = getFallbackResult (demoHost\<lparr>today := (\<lambda>k. ''2026-01-01'')\<rparr>) 7 fertilizerBag ''weather_api''"
    by (rule fallback_fixed_parts [THEN conjunct1, THEN mp, OF 1])
  have b: "getFallbackResult demoHost 0 waterBag ''soil_data''
     = getFallbackResult demoHost 3 fertilizerBag ''soil_data''"
    by (rule fallback_fixed_parts [THEN conjunct2, THEN conjunct1, THEN mp, OF 2])
  have c: "getFallbackResult demoHost 0 waterBag ''allocation_agent''
     = getFallbackResult demoHost 5 (assign waterBag ''weather_data'' JNull) ''allocation_agent''"
    by (rule fallback_fixed_parts [THEN conjunct2, THEN conjunct2, THEN conjunct1, THEN mp, OF 3])
  from a 4 b c show ?thesis by (intro conjI)
qed



text \<open>
  C9. The claim does not hold of the code: the bag is a field of the one exported agent.
  In the configuration \<open>demoConfig\<close>, a call with a query for water awaits its weather
  request; a second call with the query \<^verbatim>\<open>khad chahiye\<close> starts and puts its own bag into
  the field; the first call then goes on with that bag, and the allocation plan it
  returns carries the query of the second call. Run alone, the first call returns a plan
  with its own query.
\<close>

theorem overlapping_calls_interfere:
  "map_option requestOf
     (responseOf (snd (runTurns demoHost demoConfig ((emptyBag, 0), Map.empty) overlap) 0))
     = Some (JStr ''khad chahiye'')
   \<and> (case execute demoHost (ConfigObject demoConfig) waterQuery of
         Inr res \<Rightarrow> requestOf res | Inl e \<Rightarrow> JUndefined)
     = JStr ''I need water for my 2-acre farm''"
  by code_simp

end
